theory Spec2Isabelle
  imports Complex_Main "HOL-Library.Sublist"
begin

section \<open>The C library stream that the loader reads\<close>

text \<open>
  An access outside a buffer is undefined behaviour in the source; the model makes it a
  value, so that its absence can be proved. So is the conversion of a double that no
  \<^verbatim>\<open>long\<close> holds.
\<close>

datatype error = OutOfBounds | CastOutOfRange

text \<open>
  A \<^verbatim>\<open>FILE*\<close> opened for reading: the bytes not yet delivered, whether the stream ends
  in a read error instead of the end of the file, and the two indicators that
  \<^verbatim>\<open>feof\<close> and \<^verbatim>\<open>ferror\<close> report. The bytes are those the stream delivers: in text
  mode on Windows that is the file after the C library's newline translation.
\<close>

record FILE =
  unread :: string
  breaks :: bool
  feof :: bool
  ferror :: bool

text \<open>
  What the harness is given by its surroundings: the files that \<^verbatim>\<open>fopen\<close> can open
  (the bytes of each and whether reading it ends in an error), the bytes found in
  memory that \<^verbatim>\<open>Vector<char>::resize\<close> hands out without initialising it, and the
  number of bits of a \<^verbatim>\<open>long\<close> (32 on the Windows CE target).
\<close>

record platform =
  files :: "string \<Rightarrow> (string \<times> bool) option"
  uninitialised :: "nat \<Rightarrow> char"
  long_bits :: nat

definition fopen :: "platform \<Rightarrow> string \<Rightarrow> FILE option" where
  "fopen env fileName =
     (case files env fileName of
        None \<Rightarrow> None
      | Some (contents, bad) \<Rightarrow>
          Some \<lparr>unread = contents, breaks = bad, feof = False, ferror = False\<rparr>)"

text \<open>
  \<^verbatim>\<open>fread(ptr, 1, n, f)\<close> delivers \<open>n\<close> bytes, or fewer when the stream ends first; only
  then does it set an indicator (ISO C: a short count means end of file or error).
\<close>

definition fread :: "nat \<Rightarrow> FILE \<Rightarrow> string \<times> FILE" where
  "fread n f =
     (let got = take n (unread f);
          short = length got < n
      in (got,
          f\<lparr>unread := drop n (unread f),
            feof := feof f \<or> (short \<and> \<not> breaks f),
            ferror := ferror f \<or> (short \<and> breaks f)\<rparr>))"

section \<open>Vector<char>\<close>

text \<open>
  \<^verbatim>\<open>Vector<char>::resize\<close> keeps the leading elements and leaves the ones it adds
  uninitialised. Sizes are natural numbers: a buffer whose size does not fit
  \<^verbatim>\<open>size_t\<close> cannot be allocated, and a failed allocation is outside this model.
\<close>

definition resize :: "platform \<Rightarrow> nat \<Rightarrow> string \<Rightarrow> string" where
  "resize env n buffer =
     (if n \<le> length buffer then take n buffer
      else buffer @ map (uninitialised env) [length buffer..<n])"

definition load_at :: "string \<Rightarrow> nat \<Rightarrow> error + char" where
  "load_at buffer i = (if i < length buffer then Inr (buffer ! i) else Inl OutOfBounds)"

definition store_at :: "string \<Rightarrow> nat \<Rightarrow> char \<Rightarrow> error + string" where
  "store_at buffer i c = (if i < length buffer then Inr (buffer[i := c]) else Inl OutOfBounds)"

text \<open>
  The bytes \<^verbatim>\<open>fread\<close> received replace those of the buffer from \<open>offset\<close> on.
\<close>

definition overwrite :: "string \<Rightarrow> nat \<Rightarrow> string \<Rightarrow> string" where
  "overwrite buffer offset got =
     take offset buffer @ got @ drop (offset + length got) buffer"

section \<open>fillBufferWithContentsOfFile\<close>

text \<open>
  The read loop of \<^verbatim>\<open>fillBufferWithContentsOfFile\<close>. \<^verbatim>\<open>fread\<close> is handed the address
  \<^verbatim>\<open>buffer.data() + bufferSize\<close> and room for \<^verbatim>\<open>bufferCapacity - bufferSize\<close> bytes, an
  unsigned difference: the call stays inside the buffer exactly when
  \<open>bufferSize \<le> bufferCapacity \<le> length buffer\<close>. The result \<open>None\<close> is a loop that
  never ends.
\<close>

partial_function (option) readLoop ::
  "platform \<Rightarrow> FILE \<Rightarrow> string \<Rightarrow> nat \<Rightarrow> nat \<Rightarrow> (error + FILE \<times> string \<times> nat \<times> nat) option"
where
  "readLoop env f buffer bufferSize bufferCapacity =
     (if \<not> feof f \<and> \<not> ferror f then
        (if \<not> (bufferSize \<le> bufferCapacity \<and> bufferCapacity \<le> length buffer)
         then Some (Inl OutOfBounds)
         else
           (case fread (bufferCapacity - bufferSize) f of
              (got, f') \<Rightarrow>
                (if bufferSize + length got = bufferCapacity
                 then readLoop env f'
                        (resize env (bufferCapacity * 2) (overwrite buffer bufferSize got))
                        (bufferSize + length got) (bufferCapacity * 2)
                 else readLoop env f' (overwrite buffer bufferSize got)
                        (bufferSize + length got) bufferCapacity)))
      else Some (Inr (f, buffer, bufferSize, bufferCapacity)))"

declare readLoop.simps [code]

text \<open>
  After the loop: the terminator is stored at \<open>bufferSize\<close>, and a leading \<^verbatim>\<open>#!\<close> is
  overwritten with \<^verbatim>\<open>//\<close>. The second byte is read only when the first is \<^verbatim>\<open>#\<close>.
\<close>

definition terminate_and_neutralise :: "string \<Rightarrow> nat \<Rightarrow> error + string" where
  "terminate_and_neutralise buffer bufferSize =
     (case store_at buffer bufferSize (CHR 0x00) of
        Inl e \<Rightarrow> Inl e
      | Inr b \<Rightarrow>
          (case load_at b 0 of
             Inl e \<Rightarrow> Inl e
           | Inr c0 \<Rightarrow>
               if c0 = CHR ''#'' then
                 (case load_at b 1 of
                    Inl e \<Rightarrow> Inl e
                  | Inr c1 \<Rightarrow>
                      if c1 = CHR ''!'' then
                        (case store_at b 1 (CHR ''/'') of
                           Inl e \<Rightarrow> Inl e
                         | Inr b1 \<Rightarrow> store_at b1 0 (CHR ''/''))
                      else Inr b)
               else Inr b))"

text \<open>
  What \<^verbatim>\<open>fillBufferWithContentsOfFile\<close> and its callers can come to: they return, the
  process exits with a status, the behaviour is undefined, or they never return.
\<close>

datatype 'a outcome = Return 'a | Exit int | Undefined error | NoReturn

fun bind_outcome :: "'a outcome \<Rightarrow> ('a \<Rightarrow> 'b outcome) \<Rightarrow> 'b outcome" where
  "bind_outcome (Return x) k = k x"
| "bind_outcome (Exit c) k = Exit c"
| "bind_outcome (Undefined e) k = Undefined e"
| "bind_outcome NoReturn k = NoReturn"

text \<open>
  The function returns whether the file could be opened, and the buffer, which is an
  in-out argument. When the file cannot be opened it prints a line to the standard
  error stream, here the list \<open>err\<close> of what has been written to it.
\<close>

definition could_not_open :: "string \<Rightarrow> string" where
  "could_not_open fileName = ''Could not open file: '' @ fileName @ [CHR 0x0A]"

definition fillBufferWithContentsOfFile ::
  "platform \<Rightarrow> string \<Rightarrow> string \<Rightarrow> string list \<Rightarrow> (bool \<times> string \<times> string list) outcome"
where
  "fillBufferWithContentsOfFile env fileName buffer err =
     (case fopen env fileName of
        None \<Rightarrow> Return (False, buffer, err @ [could_not_open fileName])
      | Some f \<Rightarrow>
          (case readLoop env f (resize env 1024 buffer) 0 1024 of
             None \<Rightarrow> NoReturn
           | Some (Inl e) \<Rightarrow> Undefined e
           | Some (Inr (f', buffer', bufferSize, bufferCapacity)) \<Rightarrow>
               (case terminate_and_neutralise buffer' bufferSize of
                  Inl e \<Rightarrow> Undefined e
                | Inr buffer'' \<Rightarrow> Return (True, buffer'', err))))"

text \<open>
  The callers pass \<^verbatim>\<open>buffer.data()\<close> on as a C string: the bytes before the first
  terminator. A buffer without a terminator would be read past its end.
\<close>

definition c_str :: "string \<Rightarrow> string outcome" where
  "c_str buffer =
     (if CHR 0x00 \<in> set buffer then Return (takeWhile (\<lambda>c. c \<noteq> CHR 0x00) buffer)
      else Undefined OutOfBounds)"

section \<open>The engine, as the harness sees it\<close>

datatype JSValue =
  jsUndefined | jsNull | jsNumber int | jsString string | ErrorInstance string | JSObject nat

definition isUndefinedOrNull :: "JSValue \<Rightarrow> bool" where
  "isUndefinedOrNull v = (v = jsUndefined \<or> v = jsNull)"

record SourceCode =
  provider :: string
  url :: string

text \<open>
  \<^verbatim>\<open>jscSource\<close> turns the C string and the file name into the engine's source object;
  the decoding of the bytes (ASCII, or UTF-8 with a Latin-1 fallback) is the engine's.
\<close>

definition jscSource :: "string \<Rightarrow> string \<Rightarrow> SourceCode" where
  "jscSource utf8 filename = \<lparr>provider = utf8, url = filename\<rparr>"

text \<open>
  What an engine call can change: the engine's own heap (global objects, options,
  whatever scripts print), the pending exception of the execution state, and the wall
  clock, which advances while the engine runs. \<^verbatim>\<open>currentTime()\<close> reads the clock in
  seconds; the model takes the double as a real number.
\<close>

record 'h JSGlobalData =
  heap :: 'h
  exception :: "JSValue option"
  currentTime :: real

type_synonym GlobalObject = nat

text \<open>
  The engine is a parameter. \<open>evaluate\<close> describes the evaluations that return: it
  gives the completion value and the exception stored through the last argument
  (\<open>None\<close> for the empty \<^verbatim>\<open>JSValue()\<close>). \<open>quits\<close> tells of an evaluation whether the
  script calls the native \<^verbatim>\<open>quit\<close> in it, on which the process ends and the evaluation
  does not return (see \<open>functionQuit\<close> and \<open>evaluate_in_process\<close> below).
  \<open>checkSyntax\<close> answers \<open>None\<close> for \<^verbatim>\<open>true\<close> and the syntax error it stored for
  \<^verbatim>\<open>false\<close>.
\<close>

record 'h engine =
  evaluate :: "'h JSGlobalData \<Rightarrow> GlobalObject \<Rightarrow> SourceCode \<Rightarrow> JSValue \<times> JSValue option \<times> 'h JSGlobalData"
  quits :: "'h JSGlobalData \<Rightarrow> GlobalObject \<Rightarrow> SourceCode \<Rightarrow> bool"
  checkSyntax :: "'h JSGlobalData \<Rightarrow> GlobalObject \<Rightarrow> SourceCode \<Rightarrow> JSValue option \<times> 'h JSGlobalData"
  toString :: "JSValue \<Rightarrow> string"
  get :: "JSValue \<Rightarrow> string \<Rightarrow> JSValue"
  createGlobalData :: "'h JSGlobalData"
  createGlobalObject :: "'h JSGlobalData \<Rightarrow> string list \<Rightarrow> GlobalObject \<times> 'h JSGlobalData"
  setOption :: "string \<Rightarrow> bool"
  setDumpGeneratedBytecodes :: "'h JSGlobalData \<Rightarrow> 'h JSGlobalData"
  startSampling :: "'h JSGlobalData \<Rightarrow> 'h JSGlobalData"
  stopSampling :: "'h JSGlobalData \<Rightarrow> 'h JSGlobalData"
  dumpSampleData :: "'h JSGlobalData \<Rightarrow> 'h JSGlobalData"
  createProfiler :: "'h JSGlobalData \<Rightarrow> 'h JSGlobalData"
  saveProfiler :: "'h JSGlobalData \<Rightarrow> string \<Rightarrow> bool"

text \<open>
  Modelled from the spec: \<^verbatim>\<open>ExecState::clearException\<close>, \<^verbatim>\<open>throwError\<close> and
  \<^verbatim>\<open>createError\<close> are declared in the engine, not in this file. Clearing empties the
  pending exception; throwing stores the value as the pending exception, which the
  evaluating script can catch, and hands the value back; \<^verbatim>\<open>createError\<close> makes an
  error object that carries the message.
\<close>

definition clearException :: "'h JSGlobalData \<Rightarrow> 'h JSGlobalData" where
  "clearException gd = gd\<lparr>exception := None\<rparr>"

definition throwError :: "'h JSGlobalData \<Rightarrow> JSValue \<Rightarrow> JSValue \<times> 'h JSGlobalData" where
  "throwError gd error = (error, gd\<lparr>exception := Some error\<rparr>)"

definition createError :: "string \<Rightarrow> JSValue" where
  "createError message = ErrorInstance message"

text \<open>
  The state of the running process: the engine's data, and what the harness itself has
  written to the standard output and error streams, one entry for each call.
\<close>

record 'h process =
  globalData :: "'h JSGlobalData"
  stdout :: "string list"
  stderr :: "string list"

section \<open>StopWatch\<close>

text \<open>
  The two members hold readings of \<^verbatim>\<open>currentTime()\<close>, doubles. \<^verbatim>\<open>getElapsedMS\<close>
  subtracts and multiplies in double arithmetic and converts the product to
  \<^verbatim>\<open>long\<close>.

  A double is an IEEE 754 binary64 number: each operation delivers the representable
  number nearest to its exact result, the one with an even significand when two are
  equally near. \<open>binary64\<close> is that rounding. The significand has 53 bits, so the
  doubles around \<open>x\<close> are \<open>2 powi (e - 52)\<close> apart, where \<open>e\<close> is the exponent of the
  power of 2 at or below \<open>\<bar>x\<bar>\<close>, taken from \<open>-1022\<close> to \<open>1023\<close> (\<open>binade\<close>); \<open>x\<close> is
  rounded to a multiple of that spacing. A result that reaches \<open>2 ^ 1024\<close> is not a
  finite double (\<open>None\<close>).
\<close>

record StopWatch =
  m_startTime :: real
  m_stopTime :: real

definition round_to_even :: "real \<Rightarrow> int" where
  "round_to_even r =
     (let f = \<lfloor>r\<rfloor>
      in if r - of_int f < 1 / 2 then f
         else if 1 / 2 < r - of_int f then f + 1
         else if even f then f else f + 1)"

definition binade :: "real \<Rightarrow> int" where
  "binade x = Max (insert (- 1022) (set (filter (\<lambda>e. 2 powi e \<le> \<bar>x\<bar>) [- 1021 .. 1023])))"

definition binary64 :: "real \<Rightarrow> real option" where
  "binary64 x =
     (let ulp = 2 powi (binade x - 52);
          r = of_int (round_to_even (x / ulp)) * ulp
      in if \<bar>r\<bar> < 2 ^ 1024 then Some r else None)"

text \<open>
  The conversion to \<^verbatim>\<open>long\<close> drops the fraction. It is undefined for a value that no
  \<^verbatim>\<open>long\<close> holds, and an infinite product is such a value.
\<close>

definition to_long :: "platform \<Rightarrow> real \<Rightarrow> int outcome" where
  "to_long env x =
     (let n = (if 0 \<le> x then \<lfloor>x\<rfloor> else \<lceil>x\<rceil>)
      in if - (2 ^ (long_bits env - 1)) \<le> n \<and> n < 2 ^ (long_bits env - 1)
         then Return n else Undefined CastOutOfRange)"

definition getElapsedMS :: "platform \<Rightarrow> StopWatch \<Rightarrow> int outcome" where
  "getElapsedMS env w =
     (case binary64 (m_stopTime w - m_startTime w) of
        None \<Rightarrow> Undefined CastOutOfRange
      | Some seconds \<Rightarrow>
          (case binary64 (seconds * 1000) of
             None \<Rightarrow> Undefined CastOutOfRange
           | Some milliseconds \<Rightarrow> to_long env milliseconds))"

section \<open>Script and CommandLine\<close>

record Script =
  isFile :: bool
  argument :: string

record CommandLine =
  m_interactive :: bool
  m_dump :: bool
  m_exitCode :: bool
  m_scripts :: "Script list"
  m_arguments :: "string list"
  m_profile :: bool
  m_profilerOutput :: string

text \<open>The two statuses of \<^verbatim>\<open>stdlib.h\<close>.\<close>

definition EXIT_SUCCESS :: int where
  "EXIT_SUCCESS = 0"

definition EXIT_FAILURE :: int where
  "EXIT_FAILURE = 1"

text \<open>
  \<^verbatim>\<open>printUsageStatement\<close> does not return. What it and the option dump write to the
  standard error stream is left out.
\<close>

definition printUsageStatement :: "bool \<Rightarrow> 'a outcome" where
  "printUsageStatement help = Exit (if help then EXIT_SUCCESS else EXIT_FAILURE)"

text \<open>
  The engine's option parser is handed \<^verbatim>\<open>&arg[2]\<close>. For an argument of fewer than two
  characters that address lies behind the argument's terminator.
\<close>

definition skip_dashes :: "string \<Rightarrow> string outcome" where
  "skip_dashes arg = (if 2 \<le> length arg then Return (drop 2 arg) else Undefined OutOfBounds)"

text \<open>
  The first loop of \<^verbatim>\<open>CommandLine::parseArguments\<close>, over the arguments from
  \<^verbatim>\<open>argv[i]\<close> on. It returns the members, the two local flags and the arguments left
  when the loop is over (those behind \<^verbatim>\<open>--\<close>, or none).
\<close>

fun parseLoop ::
  "'h engine \<Rightarrow> string list \<Rightarrow> CommandLine \<Rightarrow> bool \<Rightarrow> bool
   \<Rightarrow> (CommandLine \<times> bool \<times> bool \<times> string list) outcome"
where
  "parseLoop eng [] c needToDumpOptions needToExit =
     Return (c, needToDumpOptions, needToExit, [])"
| "parseLoop eng (arg # rest) c needToDumpOptions needToExit =
     (if arg = ''-f'' then
        (case rest of
           [] \<Rightarrow> printUsageStatement False
         | a # rest' \<Rightarrow>
             parseLoop eng rest'
               (c\<lparr>m_scripts := m_scripts c @ [\<lparr>isFile = True, argument = a\<rparr>]\<rparr>)
               needToDumpOptions needToExit)
      else if arg = ''-e'' then
        (case rest of
           [] \<Rightarrow> printUsageStatement False
         | a # rest' \<Rightarrow>
             parseLoop eng rest'
               (c\<lparr>m_scripts := m_scripts c @ [\<lparr>isFile = False, argument = a\<rparr>]\<rparr>)
               needToDumpOptions needToExit)
      else if arg = ''-i'' then
        parseLoop eng rest (c\<lparr>m_interactive := True\<rparr>) needToDumpOptions needToExit
      else if arg = ''-d'' then
        parseLoop eng rest (c\<lparr>m_dump := True\<rparr>) needToDumpOptions needToExit
      else if arg = ''-p'' then
        (case rest of
           [] \<Rightarrow> printUsageStatement False
         | a # rest' \<Rightarrow>
             parseLoop eng rest' (c\<lparr>m_profile := True, m_profilerOutput := a\<rparr>)
               needToDumpOptions needToExit)
      else if arg = ''-s'' then
        parseLoop eng rest c needToDumpOptions needToExit
      else if arg = ''-x'' then
        parseLoop eng rest (c\<lparr>m_exitCode := True\<rparr>) needToDumpOptions needToExit
      else if arg = ''--'' then
        Return (c, needToDumpOptions, needToExit, rest)
      else if arg = ''-h'' \<or> arg = ''--help'' then
        printUsageStatement True
      else if arg = ''--options'' then
        parseLoop eng rest c True True
      else if arg = ''--dumpOptions'' then
        parseLoop eng rest c True needToExit
      else
        (case skip_dashes arg of
           Return name \<Rightarrow>
             if setOption eng name then
               parseLoop eng rest c needToDumpOptions needToExit
             else
               parseLoop eng rest
                 (c\<lparr>m_scripts := m_scripts c @ [\<lparr>isFile = True, argument = arg\<rparr>]\<rparr>)
                 needToDumpOptions needToExit
         | Exit status \<Rightarrow> Exit status
         | Undefined e \<Rightarrow> Undefined e
         | NoReturn \<Rightarrow> NoReturn))"

text \<open>
  The constructor of \<^verbatim>\<open>CommandLine\<close> and \<^verbatim>\<open>parseArguments\<close>: the loop starts at
  \<^verbatim>\<open>argv[1]\<close>.
\<close>

definition parseArguments :: "'h engine \<Rightarrow> string list \<Rightarrow> CommandLine outcome" where
  "parseArguments eng argv =
     bind_outcome
       (parseLoop eng (drop 1 argv)
          \<lparr>m_interactive = False, m_dump = False, m_exitCode = False, m_scripts = [],
           m_arguments = [], m_profile = False, m_profilerOutput = []\<rparr>
          False False)
       (\<lambda>(c, needToDumpOptions, needToExit, rest).
          let c1 = (if m_scripts c = [] then c\<lparr>m_interactive := True\<rparr> else c);
              c2 = c1\<lparr>m_arguments := m_arguments c1 @ rest\<rparr>
          in if needToExit then Exit EXIT_SUCCESS else Return c2)"

section \<open>The native function quit\<close>

text \<open>
  \<^verbatim>\<open>functionQuit\<close> calls \<^verbatim>\<open>exit(EXIT_SUCCESS)\<close>. The engine calls it when a script
  that it evaluates calls \<^verbatim>\<open>quit\<close>; a call of \<^verbatim>\<open>evaluate\<close> by the running process
  therefore either ends the process there or returns.
\<close>

definition functionQuit :: "'a outcome" where
  "functionQuit = Exit EXIT_SUCCESS"

definition evaluate_in_process ::
  "'h engine \<Rightarrow> 'h JSGlobalData \<Rightarrow> GlobalObject \<Rightarrow> SourceCode
   \<Rightarrow> (JSValue \<times> JSValue option \<times> 'h JSGlobalData) outcome"
where
  "evaluate_in_process eng gd globalObject source =
     (if quits eng gd globalObject source then functionQuit
      else Return (evaluate eng gd globalObject source))"

section \<open>runWithScripts\<close>

text \<open>
  What one turn of the loop of \<^verbatim>\<open>runWithScripts\<close> came to: the file could not be
  loaded, or the source was evaluated and threw, or it was evaluated and completed.
\<close>

datatype step = LoadFailed string | Threw SourceCode JSValue | Completed SourceCode JSValue

text \<open>
  The variables of \<^verbatim>\<open>runWithScripts\<close> that live across the turns of its loop, the
  process, and the record of the turns taken so far.
\<close>

record 'h driver =
  success :: bool
  scriptBuffer :: string
  running :: "'h process"
  steps :: "step list"

text \<open>
  The head of a turn: the source of the script, or, when its file cannot be loaded,
  nothing, on which \<^verbatim>\<open>runWithScripts\<close> returns \<^verbatim>\<open>false\<close>.
\<close>

definition resolveScript ::
  "platform \<Rightarrow> Script \<Rightarrow> 'h driver \<Rightarrow> (SourceCode option \<times> 'h driver) outcome"
where
  "resolveScript env s d =
     (if isFile s then
        bind_outcome
          (fillBufferWithContentsOfFile env (argument s) (scriptBuffer d) (stderr (running d)))
          (\<lambda>(opened, buffer, err).
             let d1 = d\<lparr>scriptBuffer := buffer, running := (running d)\<lparr>stderr := err\<rparr>\<rparr>
             in if \<not> opened then Return (None, d1\<lparr>steps := steps d1 @ [LoadFailed (argument s)]\<rparr>)
                else bind_outcome (c_str buffer)
                       (\<lambda>script. Return (Some (jscSource script (argument s)), d1)))
      else Return (Some (jscSource (argument s) ''[Command Line]''), d))"

text \<open>The rest of the turn, from \<^verbatim>\<open>startSampling\<close> to \<^verbatim>\<open>clearException\<close>.\<close>

definition report_exception :: "'h engine \<Rightarrow> JSValue \<Rightarrow> string list" where
  "report_exception eng evaluationException =
     (''Exception: '' @ toString eng evaluationException @ [CHR 0x0A]) #
     (let stackValue = get eng evaluationException ''stack''
      in if \<not> isUndefinedOrNull stackValue then [toString eng stackValue @ [CHR 0x0A]] else [])"

definition evaluateScript ::
  "'h engine \<Rightarrow> GlobalObject \<Rightarrow> bool \<Rightarrow> SourceCode \<Rightarrow> 'h driver \<Rightarrow> 'h driver"
where
  "evaluateScript eng globalObject dump source d =
     (case evaluate eng (startSampling eng (globalData (running d))) globalObject source of
        (returnValue, evaluationException, gd) \<Rightarrow>
          d\<lparr>success := (success d \<and> evaluationException = None),
            running := (running d)
              \<lparr>globalData := clearException (stopSampling eng gd),
               stdout := stdout (running d)
                 @ (if dump \<and> evaluationException = None
                    then [''End: '' @ toString eng returnValue @ [CHR 0x0A]] else [])
                 @ (case evaluationException of
                      None \<Rightarrow> []
                    | Some e \<Rightarrow> report_exception eng e)\<rparr>,
            steps := steps d
              @ [case evaluationException of
                   None \<Rightarrow> Completed source returnValue
                 | Some e \<Rightarrow> Threw source e]\<rparr>)"

text \<open>
  The loop: \<open>(False, d)\<close> is the early \<^verbatim>\<open>return false\<close>, \<open>(True, d)\<close> the end of the
  loop.
\<close>

fun runLoop ::
  "'h engine \<Rightarrow> platform \<Rightarrow> GlobalObject \<Rightarrow> bool \<Rightarrow> Script list \<Rightarrow> 'h driver
   \<Rightarrow> (bool \<times> 'h driver) outcome"
where
  "runLoop eng env globalObject dump [] d = Return (True, d)"
| "runLoop eng env globalObject dump (s # scripts) d =
     (case resolveScript env s d of
        Return (None, d1) \<Rightarrow> Return (False, d1)
      | Return (Some source, d1) \<Rightarrow>
          runLoop eng env globalObject dump scripts (evaluateScript eng globalObject dump source d1)
      | Exit status \<Rightarrow> Exit status
      | Undefined e \<Rightarrow> Undefined e
      | NoReturn \<Rightarrow> NoReturn)"

text \<open>
  \<^verbatim>\<open>runWithScripts\<close> returns its boolean; the model returns with it the record of the
  turns and the process as the function leaves it.
\<close>

definition runWithScripts ::
  "'h engine \<Rightarrow> platform \<Rightarrow> GlobalObject \<Rightarrow> Script list \<Rightarrow> bool \<Rightarrow> 'h process
   \<Rightarrow> (bool \<times> step list \<times> 'h process) outcome"
where
  "runWithScripts eng env globalObject scripts dump p =
     bind_outcome
       (runLoop eng env globalObject dump scripts
          \<lparr>success = True, scriptBuffer = [],
           running = (if dump then p\<lparr>globalData := setDumpGeneratedBytecodes eng (globalData p)\<rparr>
                      else p),
           steps = []\<rparr>)
       (\<lambda>(finished, d).
          if \<not> finished then Return (False, steps d, running d)
          else Return (success d, steps d,
                 (running d)\<lparr>globalData := dumpSampleData eng (globalData (running d))\<rparr>))"



section \<open>runInteractive\<close>



section \<open>jscmain\<close>


section \<open>The native functions that load a file\<close>

text \<open>
  A native function is called with the arguments of the script's call and the global
  object of the calling code; it returns a value to the engine. A missing argument reads
  as \<^verbatim>\<open>undefined\<close>. Where a native function evaluates a file, a call of \<^verbatim>\<open>quit\<close> in
  the file ends the process.
\<close>

definition argument0 :: "JSValue list \<Rightarrow> JSValue" where
  "argument0 args = (case args of [] \<Rightarrow> jsUndefined | v # vs \<Rightarrow> v)"

definition could_not_open_file ::
  "'h process \<Rightarrow> string list \<Rightarrow> (JSValue \<times> 'h process) outcome"
where
  "could_not_open_file p err =
     (case throwError (globalData p) (createError ''Could not open file.'') of
        (error, gd) \<Rightarrow> Return (error, p\<lparr>globalData := gd, stderr := err\<rparr>))"

definition functionRun ::
  "'h engine \<Rightarrow> platform \<Rightarrow> GlobalObject \<Rightarrow> JSValue list \<Rightarrow> 'h process
   \<Rightarrow> (JSValue \<times> 'h process) outcome"
where
  "functionRun eng env lexicalGlobalObject args p =
     (let fileName = toString eng (argument0 args)
      in bind_outcome (fillBufferWithContentsOfFile env fileName [] (stderr p))
           (\<lambda>(opened, script, err).
              if \<not> opened then could_not_open_file p err
              else bind_outcome (c_str script)
                (\<lambda>utf8.
                   case createGlobalObject eng (globalData p) [] of
                     (globalObject, gd) \<Rightarrow>
                       bind_outcome
                         (evaluate_in_process eng gd globalObject (jscSource utf8 fileName))
                         (\<lambda>(returnValue, thrown, gd1).
                            let stopWatch = \<lparr>m_startTime = currentTime gd,
                                             m_stopTime = currentTime gd1\<rparr>
                            in (case thrown of
                                  Some e \<Rightarrow>
                                    Return (jsUndefined,
                                      p\<lparr>globalData := snd (throwError gd1 e), stderr := err\<rparr>)
                                | None \<Rightarrow>
                                    bind_outcome (getElapsedMS env stopWatch)
                                      (\<lambda>elapsed.
                                         Return (jsNumber elapsed,
                                           p\<lparr>globalData := gd1, stderr := err\<rparr>)))))))"

definition functionLoad ::
  "'h engine \<Rightarrow> platform \<Rightarrow> GlobalObject \<Rightarrow> JSValue list \<Rightarrow> 'h process
   \<Rightarrow> (JSValue \<times> 'h process) outcome"
where
  "functionLoad eng env lexicalGlobalObject args p =
     (let fileName = toString eng (argument0 args)
      in bind_outcome (fillBufferWithContentsOfFile env fileName [] (stderr p))
           (\<lambda>(opened, script, err).
              if \<not> opened then could_not_open_file p err
              else bind_outcome (c_str script)
                (\<lambda>utf8.
                   bind_outcome
                     (evaluate_in_process eng (globalData p) lexicalGlobalObject
                        (jscSource utf8 fileName))
                     (\<lambda>(result, evaluationException, gd).
                        Return (result,
                          p\<lparr>globalData := (case evaluationException of
                                              Some e \<Rightarrow> snd (throwError gd e)
                                            | None \<Rightarrow> gd),
                            stderr := err\<rparr>)))))"

definition functionCheckSyntax ::
  "'h engine \<Rightarrow> platform \<Rightarrow> GlobalObject \<Rightarrow> JSValue list \<Rightarrow> 'h process
   \<Rightarrow> (JSValue \<times> 'h process) outcome"
where
  "functionCheckSyntax eng env lexicalGlobalObject args p =
     (let fileName = toString eng (argument0 args)
      in bind_outcome (fillBufferWithContentsOfFile env fileName [] (stderr p))
           (\<lambda>(opened, script, err).
              if \<not> opened then could_not_open_file p err
              else bind_outcome (c_str script)
                (\<lambda>utf8.
                   case checkSyntax eng (globalData p) lexicalGlobalObject (jscSource utf8 fileName) of
                     (syntaxException, gd) \<Rightarrow>
                       let stopWatch = \<lparr>m_startTime = currentTime (globalData p),
                                        m_stopTime = currentTime gd\<rparr>
                       in bind_outcome (getElapsedMS env stopWatch)
                            (\<lambda>elapsed.
                               Return (jsNumber elapsed,
                                 p\<lparr>globalData := (case syntaxException of
                                                     Some e \<Rightarrow> snd (throwError gd e)
                                                   | None \<Rightarrow> gd),
                                   stderr := err\<rparr>)))))"

section \<open>Sample surroundings\<close>

text \<open>
  A small file system and an engine to run the statements below on: \<open>a.js\<close> starts
  with an interpreter directive, \<open>b.js\<close> does not, \<open>bad.js\<close> holds \<open>(\<close>, and no other
  file exists. The sample engine throws on a source that starts with \<open>throw\<close> and
  leaves what it threw pending, hands a pending exception that it finds on entry back
  as the exception of the evaluation, ends the process on the source \<open>quit()\<close>, and
  accepts every source but \<open>(\<close> as syntactically valid. An evaluation takes
  \<open>1 / 1024\<close> of a second on its clock and a syntax check takes the double nearest to
  9 milliseconds, which is \<open>5188146770730811 / 2 ^ 59\<close> of a second.
\<close>

definition sample_platform :: platform where
  "sample_platform =
     \<lparr>files = [''a.js'' \<mapsto> (''#!jsc'' @ [CHR 0x0A] @ ''1'', False), ''b.js'' \<mapsto> (''2'', False),
               ''bad.js'' \<mapsto> (''('', False)],
      uninitialised = (\<lambda>i. CHR ''?''),
      long_bits = 32\<rparr>"

definition sample_toString :: "JSValue \<Rightarrow> string" where
  "sample_toString v =
     (case v of
        jsUndefined \<Rightarrow> ''undefined''
      | jsNull \<Rightarrow> ''null''
      | jsNumber n \<Rightarrow> ''0''
      | jsString s \<Rightarrow> s
      | ErrorInstance m \<Rightarrow> ''Error: '' @ m
      | JSObject n \<Rightarrow> ''[object Object]'')"

definition sample_evaluate ::
  "unit JSGlobalData \<Rightarrow> GlobalObject \<Rightarrow> SourceCode \<Rightarrow> JSValue \<times> JSValue option \<times> unit JSGlobalData"
where
  "sample_evaluate gd globalObject source =
     (case exception gd of
        Some e \<Rightarrow> (jsUndefined, Some e, gd\<lparr>exception := None\<rparr>)
      | None \<Rightarrow>
          if take 5 (provider source) = ''throw''
          then (jsUndefined, Some (ErrorInstance (drop 6 (provider source))),
                gd\<lparr>exception := Some (ErrorInstance (drop 6 (provider source))),
                   currentTime := currentTime gd + 1 / 1024\<rparr>)
          else (jsString (provider source), None,
                gd\<lparr>currentTime := currentTime gd + 1 / 1024\<rparr>))"

definition sample_engine :: "unit engine" where
  "sample_engine =
     \<lparr>evaluate = sample_evaluate,
      quits = (\<lambda>gd globalObject source. provider source = ''quit()''),
      checkSyntax = (\<lambda>gd globalObject source.
         (if provider source = ''('' then Some (ErrorInstance ''SyntaxError'') else None,
          gd\<lparr>currentTime := currentTime gd + 5188146770730811 / 2 ^ 59\<rparr>)),
      toString = sample_toString,
      get = (\<lambda>v name. jsUndefined),
      createGlobalData = \<lparr>heap = (), exception = None, currentTime = 0\<rparr>,
      createGlobalObject = (\<lambda>gd arguments. (0, gd)),
      setOption = (\<lambda>name. name = ''useJIT=false''),
      setDumpGeneratedBytecodes = (\<lambda>gd. gd),
      startSampling = (\<lambda>gd. gd),
      stopSampling = (\<lambda>gd. gd),
      dumpSampleData = (\<lambda>gd. gd),
      createProfiler = (\<lambda>gd. gd),
      saveProfiler = (\<lambda>gd name. True)\<rparr>"

definition sample_process :: "unit process" where
  "sample_process = \<lparr>globalData = createGlobalData sample_engine, stdout = [], stderr = []\<rparr>"

section \<open>Notions for the statements\<close>

text \<open>
  The file's bytes as the loader leaves them: a leading \<^verbatim>\<open>#!\<close> becomes \<^verbatim>\<open>//\<close>.
\<close>

definition shebang_as_comment :: "string \<Rightarrow> string" where
  "shebang_as_comment s = (if take 2 s = ''#!'' then ''//'' @ drop 2 s else s)"

text \<open>The bytes that the loop has yet to take from a stream.\<close>

definition pending :: "FILE \<Rightarrow> string" where
  "pending f = (if feof f \<or> ferror f then [] else unread f)"

text \<open>A turn of the loop that makes \<^verbatim>\<open>runWithScripts\<close> return false.\<close>

fun failed :: "step \<Rightarrow> bool" where
  "failed (LoadFailed name) = True"
| "failed (Threw source e) = True"
| "failed (Completed source v) = False"

text \<open>
  The source that a script resolves to: the C string of its file as the loader leaves
  it, or the argument itself; nothing for a file that cannot be opened.
\<close>

definition script_text :: "platform \<Rightarrow> Script \<Rightarrow> SourceCode option" where
  "script_text env s =
     (if isFile s then
        (case files env (argument s) of
           None \<Rightarrow> None
         | Some (contents, bad) \<Rightarrow>
             Some (jscSource (takeWhile (\<lambda>c. c \<noteq> CHR 0x00) (shebang_as_comment contents))
                     (argument s)))
      else Some (jscSource (argument s) ''[Command Line]''))"




text \<open>ASCII letters in lower case, to compare messages without regard to case.\<close>

definition lowercase :: "char \<Rightarrow> char" where
  "lowercase c =
     (if 65 \<le> (of_char c :: nat) \<and> (of_char c :: nat) \<le> 90
      then (case c of Char b0 b1 b2 b3 b4 b5 b6 b7 \<Rightarrow> Char b0 b1 b2 b3 b4 True b6 b7)
      else c)"

section \<open>The loader is safe and keeps the bytes\<close>

lemma length_overwrite:
  "offset + length got \<le> length buffer \<Longrightarrow> length (overwrite buffer offset got) = length buffer"
  by (simp add: overwrite_def)

lemma take_overwrite:
  "offset \<le> length buffer \<Longrightarrow>
   take (offset + length got) (overwrite buffer offset got) = take offset buffer @ got"
  by (simp add: overwrite_def)

lemma length_resize: "length (resize env n buffer) = n"
  by (simp add: resize_def)

lemma take_resize:
  "m \<le> n \<Longrightarrow> m \<le> length buffer \<Longrightarrow> take m (resize env n buffer) = take m buffer"
  by (simp add: resize_def)

text \<open>
  The loop invariant: while the size is below the capacity and the capacity is the
  buffer's length, the loop ends, keeps both facts, and has placed every pending byte
  behind those already in the buffer. The induction is on the bytes left, plus one
  while no indicator is set.
\<close>

lemma readLoop_returns:
  "bufferSize < bufferCapacity \<Longrightarrow> length buffer = bufferCapacity \<Longrightarrow>
   \<exists>f' buffer' bufferSize' bufferCapacity'.
     readLoop env f buffer bufferSize bufferCapacity =
       Some (Inr (f', buffer', bufferSize', bufferCapacity')) \<and>
     bufferSize' < bufferCapacity' \<and> length buffer' = bufferCapacity' \<and>
     bufferCapacity \<le> bufferCapacity' \<and>
     bufferSize' = bufferSize + length (pending f) \<and>
     take bufferSize' buffer' = take bufferSize buffer @ pending f"
proof (induction "length (unread f) + (if feof f \<or> ferror f then 0 else 1)"
       arbitrary: f buffer bufferSize bufferCapacity rule: less_induct)
  case less
  show ?case
  proof (cases "feof f \<or> ferror f")
    case True
    then show ?thesis using less.prems
      by (subst readLoop.simps) (auto simp: pending_def)
  next
    case False
    let ?n = "bufferCapacity - bufferSize"
    obtain got f' where fr: "fread ?n f = (got, f')" by (cases "fread ?n f")
    have got: "got = take ?n (unread f)" and f': "unread f' = drop ?n (unread f)"
      and eof': "feof f' = (length (unread f) < ?n \<and> \<not> breaks f)"
      and err': "ferror f' = (length (unread f) < ?n \<and> breaks f)"
      using fr False less.prems by (auto simp: fread_def Let_def)
    show ?thesis
    proof (cases "length (unread f) < ?n")
      case True
      then have g: "got = unread f" using got by simp
      have flag: "feof f' \<or> ferror f'" using eof' err' True by auto
      have ne: "bufferSize + length got \<noteq> bufferCapacity" using g True by simp
      have step: "readLoop env f buffer bufferSize bufferCapacity =
                  readLoop env f' (overwrite buffer bufferSize got)
                    (bufferSize + length got) bufferCapacity"
        using False less.prems fr ne by (subst readLoop.simps) simp
      have stop: "readLoop env f' (overwrite buffer bufferSize got)
                    (bufferSize + length got) bufferCapacity =
                  Some (Inr (f', overwrite buffer bufferSize got,
                             bufferSize + length got, bufferCapacity))"
        using flag by (subst readLoop.simps) auto
      have len: "length (overwrite buffer bufferSize got) = bufferCapacity"
        using less.prems g True by (simp add: length_overwrite)
      have tk: "take (bufferSize + length got) (overwrite buffer bufferSize got) =
                take bufferSize buffer @ got"
        using less.prems by (simp add: take_overwrite)
      show ?thesis
        using step stop len tk g True False by (simp add: pending_def)
    next
      case full: False
      then have lg: "length got = ?n" using got by simp
      have noflag: "\<not> feof f' \<and> \<not> ferror f'" using eof' err' full by auto
      let ?b = "resize env (bufferCapacity * 2) (overwrite buffer bufferSize got)"
      have step: "readLoop env f buffer bufferSize bufferCapacity =
                  readLoop env f' ?b bufferCapacity (bufferCapacity * 2)"
        using False less.prems fr lg by (subst readLoop.simps) simp
      have m: "length (unread f') + (if feof f' \<or> ferror f' then 0 else 1)
               < length (unread f) + (if feof f \<or> ferror f then 0 else 1)"
        using f' noflag False full less.prems by simp
      have lo: "length (overwrite buffer bufferSize got) = bufferCapacity"
        using less.prems lg by (simp add: length_overwrite)
      have tk: "take bufferCapacity ?b = take bufferSize buffer @ got"
      proof -
        have "take bufferCapacity ?b = take bufferCapacity (overwrite buffer bufferSize got)"
          using lo by (simp add: take_resize)
        also have "\<dots> = take (bufferSize + length got) (overwrite buffer bufferSize got)"
          using lg less.prems by simp
        also have "\<dots> = take bufferSize buffer @ got"
          using less.prems by (simp add: take_overwrite)
        finally show ?thesis .
      qed
      from less.hyps[OF m, of bufferCapacity "bufferCapacity * 2" ?b] less.prems
      obtain f'' buffer' bufferSize' bufferCapacity' where
        r: "readLoop env f' ?b bufferCapacity (bufferCapacity * 2) =
              Some (Inr (f'', buffer', bufferSize', bufferCapacity'))"
        and b: "bufferSize' < bufferCapacity'" "length buffer' = bufferCapacity'"
               "bufferCapacity * 2 \<le> bufferCapacity'"
        and s: "bufferSize' = bufferCapacity + length (pending f')"
        and t: "take bufferSize' buffer' = take bufferCapacity ?b @ pending f'"
        by (auto simp: length_resize)
      have pf: "pending f = got @ pending f'"
        using False noflag got f' by (simp add: pending_def)
      show ?thesis
        using step r b s t tk pf lg less.prems by simp
    qed
  qed
qed

lemma take2_eq: "take 2 s = [a, b] \<longleftrightarrow> (2 \<le> length s \<and> s ! 0 = a \<and> s ! 1 = b)"
proof (cases s)
  case Nil then show ?thesis by simp
next
  case (Cons x xs)
  then show ?thesis by (cases xs) (auto simp: numeral_2_eq_2)
qed

lemma length_shebang_as_comment: "length (shebang_as_comment s) = length s"
  using take2_eq[of s "CHR ''#''" "CHR ''!''"] by (auto simp: shebang_as_comment_def)

lemma take2_take:
  "take 2 (take n s) = [a, b] \<longleftrightarrow> (2 \<le> n \<and> 2 \<le> length s \<and> s ! 0 = a \<and> s ! 1 = b)"
  unfolding take2_eq by auto

lemma terminate_and_neutralise_ok:
  assumes "n < length buffer" "2 \<le> length buffer"
  shows "\<exists>b. terminate_and_neutralise buffer n = Inr b \<and> length b = length buffer \<and>
             take (Suc n) b = shebang_as_comment (take n buffer) @ [CHR 0x00]"
proof -
  let ?b = "buffer[n := CHR 0x00]"
  have tb: "take (Suc n) ?b = take n buffer @ [CHR 0x00]"
    using assms by (simp add: take_Suc_conv_app_nth)
  have sh: "take 2 (take n buffer) = ''#!'' \<longleftrightarrow> (?b ! 0 = CHR ''#'' \<and> ?b ! 1 = CHR ''!'')"
  proof -
    consider "n = 0" | "n = 1" | "2 \<le> n" by linarith
    then have "(2 \<le> n \<and> 2 \<le> length buffer \<and> buffer ! 0 = CHR ''#'' \<and> buffer ! 1 = CHR ''!'')
                 \<longleftrightarrow> (?b ! 0 = CHR ''#'' \<and> ?b ! 1 = CHR ''!'')"
    proof cases
      case 1 then show ?thesis using assms by simp
    next
      case 2 then show ?thesis using assms by simp
    next
      case 3 then show ?thesis using assms by simp
    qed
    then show ?thesis unfolding take2_take .
  qed
  show ?thesis
  proof (cases "take 2 (take n buffer) = ''#!''")
    case False
    then show ?thesis using assms tb sh
      by (auto simp: terminate_and_neutralise_def store_at_def load_at_def shebang_as_comment_def)
  next
    case True
    then have n2: "2 \<le> n" unfolding take2_take by simp
    have r: "terminate_and_neutralise buffer n = Inr (?b[1 := CHR ''/'', 0 := CHR ''/''])"
      using assms sh True
      by (auto simp: terminate_and_neutralise_def store_at_def load_at_def)
    have "take (Suc n) (?b[1 := CHR ''/'', 0 := CHR ''/'']) =
          (take (Suc n) ?b)[1 := CHR ''/'', 0 := CHR ''/'']"
      by (simp add: take_update_swap)
    also have "\<dots> = (take n buffer @ [CHR 0x00])[1 := CHR ''/'', 0 := CHR ''/'']"
      using tb by simp
    also have "\<dots> = (''//'' @ drop 2 (take n buffer)) @ [CHR 0x00]"
    proof -
      have l2: "2 \<le> length (take n buffer)" using n2 assms by simp
      obtain a b rest where tn: "take n buffer = a # b # rest"
        using l2 by (cases "take n buffer"; cases "tl (take n buffer)") auto
      show ?thesis unfolding tn by simp
    qed
    finally show ?thesis using r True by (simp add: shebang_as_comment_def)
  qed
qed

lemma fill_missing:
  "files env fileName = None \<Longrightarrow>
   fillBufferWithContentsOfFile env fileName buffer err =
     Return (False, buffer, err @ [could_not_open fileName])"
  by (simp add: fillBufferWithContentsOfFile_def fopen_def)

lemma fill_opened:
  assumes "files env fileName = Some (contents, bad)"
  shows "\<exists>b. fillBufferWithContentsOfFile env fileName buffer err = Return (True, b, err) \<and>
             length contents < length b \<and>
             take (Suc (length contents)) b = shebang_as_comment contents @ [CHR 0x00]"
proof -
  let ?f = "\<lparr>unread = contents, breaks = bad, feof = False, ferror = False\<rparr>"
  have op: "fopen env fileName = Some ?f" using assms by (simp add: fopen_def)
  have pf: "pending ?f = contents" by (simp add: pending_def)
  from readLoop_returns[of 0 1024 "resize env 1024 buffer" env ?f]
  obtain f' b n cap where
    r: "readLoop env ?f (resize env 1024 buffer) 0 1024 = Some (Inr (f', b, n, cap))"
    and bd: "n < cap" "length b = cap" "1024 \<le> cap"
    and n: "n = length contents" and t: "take n b = contents"
    by (auto simp: length_resize pf)
  from terminate_and_neutralise_ok[of n b] bd
  obtain b' where
    tn: "terminate_and_neutralise b n = Inr b'" and lb: "length b' = length b"
    and tk: "take (Suc n) b' = shebang_as_comment (take n b) @ [CHR 0x00]"
    by auto
  show ?thesis
    using op r tn lb tk bd n t by (simp add: fillBufferWithContentsOfFile_def)
qed

lemma c_str_terminated:
  "take (Suc (length s)) b = s @ [CHR 0x00] \<Longrightarrow>
   c_str b = Return (takeWhile (\<lambda>c. c \<noteq> CHR 0x00) s)"
proof -
  assume a: "take (Suc (length s)) b = s @ [CHR 0x00]"
  have b: "b = (s @ [CHR 0x00]) @ drop (Suc (length s)) b"
    using a append_take_drop_id[of "Suc (length s)" b] by simp
  have e: "(\<forall>x\<in>set s. x \<noteq> CHR 0x00) \<Longrightarrow> takeWhile (\<lambda>c. c \<noteq> CHR 0x00) s = s"
    by simp
  have "CHR 0x00 \<in> set b" by (subst b) simp
  moreover have "takeWhile (\<lambda>c. c \<noteq> CHR 0x00) b = takeWhile (\<lambda>c. c \<noteq> CHR 0x00) s"
    by (subst b) (simp add: takeWhile_append e)
  ultimately show ?thesis by (simp add: c_str_def)
qed

text \<open>
  C10. After the read loop the number of bytes read is below the capacity, which is the
  length of the buffer and at least 1024: the store of the terminator at \<open>bufferSize\<close>
  and the reads of the bytes 0 and 1 are inside the buffer, for every stream (an empty
  one, and one that ends in a read error, too). No access of the loader is out of
  bounds, and the loader returns.
\<close>

theorem read_loop_leaves_room:
  "\<exists>f' b bufferSize bufferCapacity.
     readLoop env f (resize env 1024 buffer) 0 1024 =
       Some (Inr (f', b, bufferSize, bufferCapacity)) \<and>
     bufferSize < bufferCapacity \<and> length b = bufferCapacity \<and> 1024 \<le> bufferCapacity \<and>
     bufferSize < length b \<and> 0 < length b \<and> 1 < length b \<and>
     (\<exists>b'. terminate_and_neutralise b bufferSize = Inr b') \<and>
     (\<exists>r. fillBufferWithContentsOfFile env fileName buffer err = Return r)"
proof -
  from readLoop_returns[of 0 1024 "resize env 1024 buffer" env f]
  obtain f' b n cap where
    r: "readLoop env f (resize env 1024 buffer) 0 1024 = Some (Inr (f', b, n, cap))"
    and bd: "n < cap" "length b = cap" "1024 \<le> cap"
    by (auto simp: length_resize)
  from terminate_and_neutralise_ok[of n b] bd
  obtain b' where tn: "terminate_and_neutralise b n = Inr b'" by auto
  have "\<exists>r. fillBufferWithContentsOfFile env fileName buffer err = Return r"
  proof (cases "files env fileName")
    case None
    then show ?thesis by (auto simp: fill_missing)
  next
    case (Some a)
    then show ?thesis using fill_opened[of env fileName "fst a" "snd a" buffer err] by auto
  qed
  then show ?thesis using r bd tn by auto
qed

theorem read_loop_leaves_room_witness:
  "\<exists>f' b bufferSize bufferCapacity.
     readLoop sample_platform \<lparr>unread = [], breaks = False, feof = False, ferror = False\<rparr>
       (resize sample_platform 1024 []) 0 1024 =
       Some (Inr (f', b, bufferSize, bufferCapacity)) \<and>
     bufferSize < bufferCapacity \<and> length b = bufferCapacity \<and> 1024 \<le> bufferCapacity \<and>
     bufferSize < length b \<and> 0 < length b \<and> 1 < length b \<and>
     (\<exists>b'. terminate_and_neutralise b bufferSize = Inr b') \<and>
     (\<exists>r. fillBufferWithContentsOfFile sample_platform ''a.js'' [] [] = Return r)"
  by (rule read_loop_leaves_room)

text \<open>
  C4. For a file that can be opened, the loader returns true and a buffer that holds the
  file's bytes followed by the terminator; when the file starts with \<^verbatim>\<open>#!\<close> the first
  two bytes are \<^verbatim>\<open>//\<close> and the other bytes are the file's, otherwise all bytes are the
  file's. (The buffer itself is as long as the loop's last capacity; what lies behind
  the terminator is not part of the C string that the callers read.)
\<close>

theorem load_keeps_bytes_but_shebang:
  assumes "files env fileName = Some (contents, bad)"
  shows "\<exists>b. fillBufferWithContentsOfFile env fileName buffer err = Return (True, b, err) \<and>
             length contents < length b \<and>
             b ! length contents = CHR 0x00 \<and>
             take (length contents) b =
               (if take 2 contents = ''#!'' then ''//'' @ drop 2 contents else contents)"
proof -
  from fill_opened[OF assms, of buffer err]
  obtain b where
    r: "fillBufferWithContentsOfFile env fileName buffer err = Return (True, b, err)"
    and l: "length contents < length b"
    and t: "take (Suc (length contents)) b = shebang_as_comment contents @ [CHR 0x00]"
    by auto
  have "b ! length contents = take (Suc (length contents)) b ! length contents" by simp
  also have "\<dots> = CHR 0x00"
    unfolding t by (simp add: nth_append length_shebang_as_comment)
  finally have z: "b ! length contents = CHR 0x00" .
  have "take (length contents) b = take (length contents) (take (Suc (length contents)) b)"
    by simp
  also have "\<dots> = shebang_as_comment contents"
    unfolding t by (simp add: length_shebang_as_comment)
  finally have "take (length contents) b = shebang_as_comment contents" .
  then show ?thesis using r l z by (auto simp: shebang_as_comment_def)
qed

theorem load_keeps_bytes_but_shebang_witness:
  "\<exists>b. fillBufferWithContentsOfFile sample_platform ''a.js'' [] [] = Return (True, b, []) \<and>
       7 < length b \<and> b ! 7 = CHR 0x00 \<and> take 7 b = ''//jsc'' @ [CHR 0x0A] @ ''1''"
  using load_keeps_bytes_but_shebang
    [of sample_platform "''a.js''" "''#!jsc'' @ [CHR 0x0A] @ ''1''" False "[]" "[]"]
  by (simp add: sample_platform_def eval_nat_numeral)

section \<open>The batch driver\<close>

text \<open>The definitions that a run on the sample surroundings unfolds.\<close>

lemmas sample_defs =
  sample_engine_def sample_evaluate_def sample_process_def sample_platform_def
  sample_toString_def jscSource_def clearException_def report_exception_def
  isUndefinedOrNull_def resolveScript_def evaluateScript_def runWithScripts_def Let_def

lemma resolve_missing:
  assumes "script_text env s = None"
  shows "resolveScript env s d =
           Return (None, d\<lparr>running := (running d)\<lparr>stderr := stderr (running d) @ [could_not_open (argument s)]\<rparr>,
                          steps := steps d @ [LoadFailed (argument s)]\<rparr>)"
proof -
  from assms have f: "isFile s" and n: "files env (argument s) = None"
    by (auto simp: script_text_def split: if_splits option.splits)
  show ?thesis using f by (simp add: resolveScript_def fill_missing[OF n])
qed

lemma resolve_loaded:
  assumes "script_text env s = Some source"
  shows "\<exists>b. resolveScript env s d = Return (Some source, d\<lparr>scriptBuffer := b\<rparr>)"
proof (cases "isFile s")
  case False
  then have "resolveScript env s d = Return (Some source, d\<lparr>scriptBuffer := scriptBuffer d\<rparr>)"
    using assms by (simp add: resolveScript_def script_text_def)
  then show ?thesis by blast
next
  case True
  then obtain contents bad where c: "files env (argument s) = Some (contents, bad)"
    and src: "source = jscSource (takeWhile (\<lambda>c. c \<noteq> CHR 0x00) (shebang_as_comment contents)) (argument s)"
    using assms by (auto simp: script_text_def split: option.splits)
  from fill_opened[OF c, of "scriptBuffer d" "stderr (running d)"]
  obtain b where
    r: "fillBufferWithContentsOfFile env (argument s) (scriptBuffer d) (stderr (running d)) =
          Return (True, b, stderr (running d))"
    and t: "take (Suc (length contents)) b = shebang_as_comment contents @ [CHR 0x00]"
    by auto
  have cs: "c_str b = Return (takeWhile (\<lambda>c. c \<noteq> CHR 0x00) (shebang_as_comment contents))"
    using t c_str_terminated[of "shebang_as_comment contents" b]
    by (simp add: length_shebang_as_comment)
  have "resolveScript env s d = Return (Some source, d\<lparr>scriptBuffer := b\<rparr>)"
    using True r cs src by (simp add: resolveScript_def)
  then show ?thesis by blast
qed

lemma evaluateScript_steps:
  "\<exists>t. steps (evaluateScript eng g dump source d) = steps d @ [t] \<and>
       ((\<exists>e. t = Threw source e) \<or> (\<exists>v. t = Completed source v)) \<and>
       (success (evaluateScript eng g dump source d) \<longleftrightarrow> success d \<and> \<not> failed t)"
  by (cases "evaluate eng (startSampling eng (globalData (running d))) g source")
     (auto simp: evaluateScript_def split: option.splits)

lemma evaluateScript_clears:
  "exception (globalData (running (evaluateScript eng g dump source d))) = None"
  by (cases "evaluate eng (startSampling eng (globalData (running d))) g source")
     (auto simp: evaluateScript_def clearException_def)





lemma runLoop_append:
  "runLoop eng env g dump xs d = Return (True, d') \<Longrightarrow>
   runLoop eng env g dump (xs @ ys) d = runLoop eng env g dump ys d'"
proof (induction xs arbitrary: d)
  case Nil
  then show ?case by simp
next
  case (Cons s xs)
  show ?case
  proof (cases "script_text env s")
    case None
    then show ?thesis using Cons.prems by (simp add: resolve_missing)
  next
    case (Some source)
    from resolve_loaded[OF Some, of d] obtain b where
      r: "resolveScript env s d = Return (Some source, d\<lparr>scriptBuffer := b\<rparr>)" by blast
    then show ?thesis using Cons by simp
  qed
qed

lemma runLoop_split:
  "runLoop eng env g dump (xs @ ys) d = Return (True, d') \<Longrightarrow>
   \<exists>d0. runLoop eng env g dump xs d = Return (True, d0) \<and>
        runLoop eng env g dump ys d0 = Return (True, d')"
proof (induction xs arbitrary: d)
  case Nil
  then show ?case by simp
next
  case (Cons s xs)
  show ?case
  proof (cases "script_text env s")
    case None
    then show ?thesis using Cons.prems by (simp add: resolve_missing)
  next
    case (Some source)
    from resolve_loaded[OF Some, of d] obtain b where
      r: "resolveScript env s d = Return (Some source, d\<lparr>scriptBuffer := b\<rparr>)" by blast
    then show ?thesis using Cons by simp
  qed
qed


lemma runLoop_single:
  "runLoop eng env g dump [s] d = Return (True, d') \<Longrightarrow>
   \<exists>source d1. resolveScript env s d = Return (Some source, d1) \<and>
                d' = evaluateScript eng g dump source d1"
  by (auto split: outcome.splits option.splits prod.splits)

lemma resolve_some:
  assumes "resolveScript env s d = Return (Some source, d1)"
  shows "\<exists>b. d1 = d\<lparr>scriptBuffer := b\<rparr>"
proof (cases "script_text env s")
  case None
  then show ?thesis using assms by (simp add: resolve_missing)
next
  case (Some source')
  from resolve_loaded[OF Some, of d] assms show ?thesis by auto
qed



text \<open>
  C3. Let the driver reach a script \<open>A\<close> whose evaluation throws, and let the next
  script \<open>B\<close>, evaluated in the state that the turn of \<open>A\<close> left, not throw. The turn of
  \<open>A\<close> ends with no exception pending; the turn of \<open>B\<close> is recorded as completed, prints
  no line that starts with \<open>Exception:\<close> (it prints the \<open>End:\<close> line when dumping and
  nothing otherwise), and again leaves no exception pending. The run as a whole has
  failed, through \<open>A\<close>.
\<close>

theorem exception_state_does_not_leak:
  assumes "runLoop eng env g dump (before @ [A]) d = Return (True, dA)"
      and "last (steps dA) = Threw sourceA e"
      and "resolveScript env B dA = Return (Some sourceB, dB)"
      and "evaluate eng (startSampling eng (globalData (running dB))) g sourceB = (v, None, gd)"
  shows "exception (globalData (running dA)) = None \<and>
         (\<exists>dAB. runLoop eng env g dump (before @ [A, B]) d = Return (True, dAB) \<and>
            steps dAB = steps dA @ [Completed sourceB v] \<and>
            stdout (running dAB) =
              stdout (running dA) @ (if dump then [''End: '' @ toString eng v @ [CHR 0x0A]] else []) \<and>
            list_all (\<lambda>line. \<not> prefix ''Exception:'' line)
              (drop (length (stdout (running dA))) (stdout (running dAB))) \<and>
            exception (globalData (running dAB)) = None \<and>
            success dAB = False)"
proof -
  from runLoop_split[OF assms(1)] obtain d0 where
    "runLoop eng env g dump [A] d0 = Return (True, dA)" by blast
  from runLoop_single[OF this] obtain sourceA' d1 where
    dA: "dA = evaluateScript eng g dump sourceA' d1" by blast
  have cl: "exception (globalData (running dA)) = None"
    unfolding dA by (rule evaluateScript_clears)
  from evaluateScript_steps[of eng g dump sourceA' d1] obtain t where
    "steps dA = steps d1 @ [t]" and "success dA \<longleftrightarrow> success d1 \<and> \<not> failed t"
    unfolding dA by blast
  with assms(2) have fa: "success dA = False" by simp
  from resolve_some[OF assms(3)] obtain b where dB: "dB = dA\<lparr>scriptBuffer := b\<rparr>" by blast
  have sB: "success dB = success dA" "stdout (running dB) = stdout (running dA)"
    "steps dB = steps dA"
    unfolding dB by simp_all
  let ?dAB = "evaluateScript eng g dump sourceB dB"
  have "runLoop eng env g dump ((before @ [A]) @ [B]) d = runLoop eng env g dump [B] dA"
    using runLoop_append[OF assms(1)] .
  then have rl: "runLoop eng env g dump (before @ [A, B]) d = Return (True, ?dAB)"
    using assms(3) by simp
  have st: "steps ?dAB = steps dA @ [Completed sourceB v]"
    and so: "stdout (running ?dAB) =
              stdout (running dA) @ (if dump then [''End: '' @ toString eng v @ [CHR 0x0A]] else [])"
    and su: "success ?dAB = False"
    using assms(4) sB fa by (simp_all add: evaluateScript_def)
  have li: "list_all (\<lambda>line. \<not> prefix ''Exception:'' line)
              (drop (length (stdout (running dA))) (stdout (running ?dAB)))"
    unfolding so by simp
  show ?thesis
    using cl rl st so li su evaluateScript_clears[of eng g dump sourceB dB] by blast
qed

theorem exception_state_does_not_leak_witness:
  "\<exists>dA dAB.
     runLoop sample_engine sample_platform 0 False ([] @ [\<lparr>isFile = False, argument = ''throw boom''\<rparr>])
       \<lparr>success = True, scriptBuffer = [], running = sample_process, steps = []\<rparr> =
       Return (True, dA) \<and>
     last (steps dA) = Threw (jscSource ''throw boom'' ''[Command Line]'') (ErrorInstance ''boom'') \<and>
     resolveScript sample_platform \<lparr>isFile = False, argument = ''1''\<rparr> dA =
       Return (Some (jscSource ''1'' ''[Command Line]''), dA) \<and>
     fst (snd (evaluate sample_engine (startSampling sample_engine (globalData (running dA))) 0
                 (jscSource ''1'' ''[Command Line]''))) = None \<and>
     exception (globalData (running dA)) = None \<and>
     runLoop sample_engine sample_platform 0 False
       ([] @ [\<lparr>isFile = False, argument = ''throw boom''\<rparr>, \<lparr>isFile = False, argument = ''1''\<rparr>])
       \<lparr>success = True, scriptBuffer = [], running = sample_process, steps = []\<rparr> =
       Return (True, dAB) \<and>
     steps dAB = steps dA @ [Completed (jscSource ''1'' ''[Command Line]'') (jsString ''1'')] \<and>
     stdout (running dAB) = stdout (running dA) \<and>
     success dAB = False"
proof -
  let ?A = "\<lparr>isFile = False, argument = ''throw boom''\<rparr>"
  let ?B = "\<lparr>isFile = False, argument = ''1''\<rparr>"
  let ?d = "\<lparr>success = True, scriptBuffer = [], running = sample_process, steps = []\<rparr>"
  let ?dA = "evaluateScript sample_engine 0 False (jscSource ''throw boom'' ''[Command Line]'') ?d"
  have h1: "runLoop sample_engine sample_platform 0 False ([] @ [?A]) ?d = Return (True, ?dA)"
    by (simp add: resolveScript_def)
  have h2: "last (steps ?dA) =
              Threw (jscSource ''throw boom'' ''[Command Line]'') (ErrorInstance ''boom'')"
    by (simp add: sample_defs)
  have h3: "resolveScript sample_platform ?B ?dA =
              Return (Some (jscSource ''1'' ''[Command Line]''), ?dA)"
    by (simp add: resolveScript_def)
  have h4: "evaluate sample_engine (startSampling sample_engine (globalData (running ?dA))) 0
              (jscSource ''1'' ''[Command Line]'') =
            (jsString ''1'', None,
             \<lparr>heap = (), exception = None, currentTime = 1 / 512\<rparr>)"
    by (simp add: sample_defs)
  from exception_state_does_not_leak[OF h1 h2 h3 h4]
  show ?thesis using h1 h2 h3 h4 by auto
qed










section \<open>The command line\<close>

text \<open>
  C5. A configuration that the parser returns with an empty script list has its
  interactive flag set, whether or not \<^verbatim>\<open>-i\<close> was among the arguments.
\<close>

theorem no_scripts_forces_interactive:
  assumes "parseArguments eng argv = Return options" and "m_scripts options = []"
  shows "m_interactive options"
proof (cases "parseLoop eng (drop 1 argv)
          \<lparr>m_interactive = False, m_dump = False, m_exitCode = False, m_scripts = [],
           m_arguments = [], m_profile = False, m_profilerOutput = []\<rparr> False False")
  case (Return r)
  obtain c needToDumpOptions needToExit rest where r: "r = (c, needToDumpOptions, needToExit, rest)"
    by (cases r)
  show ?thesis
    using assms Return r by (auto simp: parseArguments_def Let_def split: if_splits)
qed (use assms in \<open>simp_all add: parseArguments_def\<close>)

theorem no_scripts_forces_interactive_witness:
  "parseArguments sample_engine [''jsc'', ''-d''] =
     Return \<lparr>m_interactive = True, m_dump = True, m_exitCode = False, m_scripts = [],
             m_arguments = [], m_profile = False, m_profilerOutput = []\<rparr> \<and>
   m_interactive \<lparr>m_interactive = True, m_dump = True, m_exitCode = False, m_scripts = [],
             m_arguments = [], m_profile = False, m_profilerOutput = []\<rparr>"
proof -
  let ?c = "\<lparr>m_interactive = True, m_dump = True, m_exitCode = False, m_scripts = [],
             m_arguments = [], m_profile = False, m_profilerOutput = []\<rparr>"
  have h1: "parseArguments sample_engine [''jsc'', ''-d''] = Return ?c"
    by (simp add: parseArguments_def)
  have h2: "m_scripts ?c = []" by simp
  from no_scripts_forces_interactive[OF h1 h2] h1 show ?thesis by blast
qed


text \<open>
  One turn of the parser's loop takes the argument and, for \<^verbatim>\<open>-f\<close>, \<^verbatim>\<open>-e\<close> and \<^verbatim>\<open>-p\<close>,
  the one after it; it only ever appends to the scripts. So the arguments parsed so far
  fix the state in which the loop meets the next one.
\<close>

lemma parseLoop_step:
  assumes p: "parseLoop eng (arg # rest) c d x = Return r" and ne: "arg \<noteq> ''--''"
  shows "\<exists>n c' d' x' added.
           n \<le> length rest \<and> m_scripts c' = m_scripts c @ added \<and>
           (\<forall>tl. parseLoop eng (arg # take n rest @ tl) c d x = parseLoop eng tl c' d' x')"
proof -
  consider (f) "arg = ''-f''" | (e) "arg = ''-e''" | (p) "arg = ''-p''"
    | (i) "arg = ''-i''" | (d) "arg = ''-d''" | (s) "arg = ''-s''" | (x) "arg = ''-x''"
    | (h) "arg = ''-h'' \<or> arg = ''--help''" | (o) "arg = ''--options''"
    | (u) "arg = ''--dumpOptions''"
    | (other) "arg \<noteq> ''-f''" "arg \<noteq> ''-e''" "arg \<noteq> ''-p''"
        "arg \<noteq> ''-i''" "arg \<noteq> ''-d''" "arg \<noteq> ''-s''" "arg \<noteq> ''-x''"
        "arg \<noteq> ''-h''" "arg \<noteq> ''--help''" "arg \<noteq> ''--options''" "arg \<noteq> ''--dumpOptions''"
    by blast
  then show ?thesis
  proof cases
    case f
    show ?thesis
    proof (cases rest)
      case Nil
      then show ?thesis using p f by (simp add: printUsageStatement_def)
    next
      case (Cons a rest')
      let ?c = "c\<lparr>m_scripts := m_scripts c @ [\<lparr>isFile = True, argument = a\<rparr>]\<rparr>"
      have "\<forall>tl. parseLoop eng (arg # take 1 rest @ tl) c d x = parseLoop eng tl ?c d x"
        using f Cons by simp
      moreover have "1 \<le> length rest" "m_scripts ?c = m_scripts c @ [\<lparr>isFile = True, argument = a\<rparr>]"
        using Cons by simp_all
      ultimately show ?thesis by blast
    qed
  next
    case e
    show ?thesis
    proof (cases rest)
      case Nil
      then show ?thesis using p e by (simp add: printUsageStatement_def)
    next
      case (Cons a rest')
      let ?c = "c\<lparr>m_scripts := m_scripts c @ [\<lparr>isFile = False, argument = a\<rparr>]\<rparr>"
      have "\<forall>tl. parseLoop eng (arg # take 1 rest @ tl) c d x = parseLoop eng tl ?c d x"
        using e Cons by simp
      moreover have "1 \<le> length rest" "m_scripts ?c = m_scripts c @ [\<lparr>isFile = False, argument = a\<rparr>]"
        using Cons by simp_all
      ultimately show ?thesis by blast
    qed
  next
    case p
    show ?thesis
    proof (cases rest)
      case Nil
      then show ?thesis using assms(1) p by (simp add: printUsageStatement_def)
    next
      case (Cons a rest')
      let ?c = "c\<lparr>m_profile := True, m_profilerOutput := a\<rparr>"
      have "\<forall>tl. parseLoop eng (arg # take 1 rest @ tl) c d x = parseLoop eng tl ?c d x"
        using p Cons by simp
      moreover have "1 \<le> length rest" "m_scripts ?c = m_scripts c @ []"
        using Cons by simp_all
      ultimately show ?thesis by blast
    qed
  next
    case i
    let ?c = "c\<lparr>m_interactive := True\<rparr>"
    have "\<forall>tl. parseLoop eng (arg # take 0 rest @ tl) c d x = parseLoop eng tl ?c d x"
      using i by simp
    moreover have "0 \<le> length rest" "m_scripts ?c = m_scripts c @ []" by simp_all
    ultimately show ?thesis by blast
  next
    case d
    let ?c = "c\<lparr>m_dump := True\<rparr>"
    have "\<forall>tl. parseLoop eng (arg # take 0 rest @ tl) c d x = parseLoop eng tl ?c d x"
      using d by simp
    moreover have "0 \<le> length rest" "m_scripts ?c = m_scripts c @ []" by simp_all
    ultimately show ?thesis by blast
  next
    case s
    have "\<forall>tl. parseLoop eng (arg # take 0 rest @ tl) c d x = parseLoop eng tl c d x"
      using s by simp
    moreover have "0 \<le> length rest" "m_scripts c = m_scripts c @ []" by simp_all
    ultimately show ?thesis by blast
  next
    case x
    let ?c = "c\<lparr>m_exitCode := True\<rparr>"
    have "\<forall>tl. parseLoop eng (arg # take 0 rest @ tl) c d x = parseLoop eng tl ?c d x"
      using x by simp
    moreover have "0 \<le> length rest" "m_scripts ?c = m_scripts c @ []" by simp_all
    ultimately show ?thesis by blast
  next
    case h
    then have "parseLoop eng (arg # rest) c d x = Exit EXIT_SUCCESS"
      by (auto simp: printUsageStatement_def)
    then show ?thesis using assms(1) by simp
  next
    case o
    have "\<forall>tl. parseLoop eng (arg # take 0 rest @ tl) c d x = parseLoop eng tl c True True"
      using o by simp
    moreover have "0 \<le> length rest" "m_scripts c = m_scripts c @ []" by simp_all
    ultimately show ?thesis by blast
  next
    case u
    have "\<forall>tl. parseLoop eng (arg # take 0 rest @ tl) c d x = parseLoop eng tl c True x"
      using u by simp
    moreover have "0 \<le> length rest" "m_scripts c = m_scripts c @ []" by simp_all
    ultimately show ?thesis by blast
  next
    case other
    have un: "parseLoop eng (arg # tl) c d x =
          (case skip_dashes arg of
             Return name \<Rightarrow>
               if setOption eng name then parseLoop eng tl c d x
               else parseLoop eng tl
                      (c\<lparr>m_scripts := m_scripts c @ [\<lparr>isFile = True, argument = arg\<rparr>]\<rparr>) d x
           | Exit status \<Rightarrow> Exit status
           | Undefined e \<Rightarrow> Undefined e
           | NoReturn \<Rightarrow> NoReturn)" for tl
      using other ne by simp
    show ?thesis
    proof (cases "2 \<le> length arg")
      case False
      then have "parseLoop eng (arg # rest) c d x = Undefined OutOfBounds"
        unfolding un by (simp add: skip_dashes_def)
      then show ?thesis using assms(1) by simp
    next
      case True
      then have sk: "skip_dashes arg = Return (drop 2 arg)" by (simp add: skip_dashes_def)
      show ?thesis
      proof (cases "setOption eng (drop 2 arg)")
        case True
        then have "\<forall>tl. parseLoop eng (arg # take 0 rest @ tl) c d x = parseLoop eng tl c d x"
          using un sk by simp
        moreover have "0 \<le> length rest" "m_scripts c = m_scripts c @ []" by simp_all
        ultimately show ?thesis by blast
      next
        case False
        let ?c = "c\<lparr>m_scripts := m_scripts c @ [\<lparr>isFile = True, argument = arg\<rparr>]\<rparr>"
        from False have "\<forall>tl. parseLoop eng (arg # take 0 rest @ tl) c d x = parseLoop eng tl ?c d x"
          using un sk by simp
        moreover have "0 \<le> length rest"
          "m_scripts ?c = m_scripts c @ [\<lparr>isFile = True, argument = arg\<rparr>]" by simp_all
        ultimately show ?thesis by blast
      qed
    qed
  qed
qed

lemma parseLoop_append:
  "parseLoop eng before c d x = Return (c1, d1, x1, []) \<Longrightarrow> ''--'' \<notin> set before \<Longrightarrow>
   parseLoop eng (before @ further) c d x = parseLoop eng further c1 d1 x1"
proof (induction "length before" arbitrary: before c d x rule: less_induct)
  case less
  show ?case
  proof (cases before)
    case Nil
    then show ?thesis using less.prems by simp
  next
    case (Cons arg rest)
    have p: "parseLoop eng (arg # rest) c d x = Return (c1, d1, x1, [])"
      using less.prems(1) Cons by simp
    have ne: "arg \<noteq> ''--''" and nr: "''--'' \<notin> set rest"
      using less.prems(2) Cons by auto
    from parseLoop_step[OF p ne] obtain n c' d' x' where
      n: "n \<le> length rest"
      and st: "\<And>tl. parseLoop eng (arg # take n rest @ tl) c d x = parseLoop eng tl c' d' x'"
      by blast
    have "parseLoop eng (drop n rest) c' d' x' = Return (c1, d1, x1, [])"
      using p st[of "drop n rest"] by (simp only: append_take_drop_id)
    moreover have "length (drop n rest) < length before" using Cons by simp
    moreover have "''--'' \<notin> set (drop n rest)" using nr by (meson in_set_dropD)
    ultimately have "parseLoop eng (drop n rest @ further) c' d' x' = parseLoop eng further c1 d1 x1"
      using less.hyps by blast
    moreover have "before @ further = arg # take n rest @ (drop n rest @ further)"
      using Cons by simp
    ultimately show ?thesis using st[of "drop n rest @ further"] by (simp only:)
  qed
qed

lemma parseLoop_scripts_grow:
  "parseLoop eng args c d x = Return (c', d', x', rest) \<Longrightarrow>
   \<exists>added. m_scripts c' = m_scripts c @ added"
proof (induction "length args" arbitrary: args c d x rule: less_induct)
  case less
  show ?case
  proof (cases args)
    case Nil
    then show ?thesis using less.prems by simp
  next
    case (Cons arg tl)
    show ?thesis
    proof (cases "arg = ''--''")
      case True
      then show ?thesis using less.prems Cons by simp
    next
      case False
      have p: "parseLoop eng (arg # tl) c d x = Return (c', d', x', rest)"
        using less.prems Cons by simp
      from parseLoop_step[OF p False] obtain n c2 d2 x2 added where
        n: "n \<le> length tl" and a: "m_scripts c2 = m_scripts c @ added"
        and st: "\<And>t. parseLoop eng (arg # take n tl @ t) c d x = parseLoop eng t c2 d2 x2"
        by blast
      have "parseLoop eng (drop n tl) c2 d2 x2 = Return (c', d', x', rest)"
        using p st[of "drop n tl"] by (simp only: append_take_drop_id)
      moreover have "length (drop n tl) < length args" using Cons by simp
      ultimately obtain added' where "m_scripts c' = m_scripts c2 @ added'"
        using less.hyps by blast
      then show ?thesis using a by simp
    qed
  qed
qed

lemma unknown_long_option_step:
  assumes "take 2 arg = ''--''"
      and "arg \<noteq> ''--''" "arg \<noteq> ''--help''" "arg \<noteq> ''--options''" "arg \<noteq> ''--dumpOptions''"
      and "\<not> setOption eng (drop 2 arg)"
  shows "parseLoop eng (arg # rest) c needToDumpOptions needToExit =
         parseLoop eng rest
           (c\<lparr>m_scripts := m_scripts c @ [\<lparr>isFile = True, argument = arg\<rparr>]\<rparr>)
           needToDumpOptions needToExit"
proof -
  have l: "2 \<le> length arg" using assms(1) take2_eq[of arg "CHR ''-''" "CHR ''-''"] by simp
  have n: "arg \<noteq> ''-f''" "arg \<noteq> ''-e''" "arg \<noteq> ''-i''" "arg \<noteq> ''-d''" "arg \<noteq> ''-p''"
          "arg \<noteq> ''-s''" "arg \<noteq> ''-x''" "arg \<noteq> ''-h''"
    using assms(1) by auto
  show ?thesis using l n assms by (simp add: skip_dashes_def)
qed

text \<open>
  C7. Take an argument that starts with \<^verbatim>\<open>--\<close>, is none of \<^verbatim>\<open>--\<close>, \<^verbatim>\<open>--help\<close>,
  \<^verbatim>\<open>--options\<close> and \<^verbatim>\<open>--dumpOptions\<close>, and is not accepted by the engine's option
  parser. Given alone, the parser returns the configuration whose only script is the
  argument as a file: it neither exits nor reports an error. Given after arguments that
  the loop has parsed to a configuration \<open>c1\<close>, the parser returns \<open>c1\<close> with the argument
  appended to the scripts as a file (unless \<^verbatim>\<open>--options\<close> came before, which exits with
  status 0 at the end). With further arguments behind it, every configuration that the
  parser returns has the argument as a file script right after the scripts of \<open>c1\<close>.
\<close>

theorem unknown_long_option_becomes_a_file:
  assumes "take 2 arg = ''--''"
      and "arg \<noteq> ''--''" "arg \<noteq> ''--help''" "arg \<noteq> ''--options''" "arg \<noteq> ''--dumpOptions''"
      and "\<not> setOption eng (drop 2 arg)"
  shows "parseArguments eng [prog, arg] =
           Return \<lparr>m_interactive = False, m_dump = False, m_exitCode = False,
                   m_scripts = [\<lparr>isFile = True, argument = arg\<rparr>],
                   m_arguments = [], m_profile = False, m_profilerOutput = []\<rparr> \<and>
         (\<forall>before c1 d1 x1.
            parseLoop eng before
              \<lparr>m_interactive = False, m_dump = False, m_exitCode = False, m_scripts = [],
               m_arguments = [], m_profile = False, m_profilerOutput = []\<rparr> False False =
              Return (c1, d1, x1, []) \<longrightarrow>
            ''--'' \<notin> set before \<longrightarrow>
            parseArguments eng (prog # before @ [arg]) =
              (if x1 then Exit EXIT_SUCCESS
               else Return (c1\<lparr>m_scripts := m_scripts c1 @ [\<lparr>isFile = True, argument = arg\<rparr>]\<rparr>)) \<and>
            (\<forall>after options.
               parseArguments eng (prog # before @ arg # after) = Return options \<longrightarrow>
               (\<exists>later. m_scripts options =
                          m_scripts c1 @ \<lparr>isFile = True, argument = arg\<rparr> # later)))"
proof (intro conjI allI impI)
  note step = unknown_long_option_step[OF assms]
  let ?c0 = "\<lparr>m_interactive = False, m_dump = False, m_exitCode = False, m_scripts = [],
               m_arguments = [], m_profile = False, m_profilerOutput = []\<rparr>"
  show "parseArguments eng [prog, arg] =
           Return \<lparr>m_interactive = False, m_dump = False, m_exitCode = False,
                   m_scripts = [\<lparr>isFile = True, argument = arg\<rparr>],
                   m_arguments = [], m_profile = False, m_profilerOutput = []\<rparr>"
    by (simp add: parseArguments_def step del: parseLoop.simps(2))
  fix before c1 d1 x1
  assume b: "parseLoop eng before ?c0 False False = Return (c1, d1, x1, [])"
    and n: "''--'' \<notin> set before"
  have l: "parseLoop eng (before @ arg # further) ?c0 False False =
           parseLoop eng further
             (c1\<lparr>m_scripts := m_scripts c1 @ [\<lparr>isFile = True, argument = arg\<rparr>]\<rparr>) d1 x1"
    for further
    using parseLoop_append[OF b n, of "arg # further"] step by simp
  show "parseArguments eng (prog # before @ [arg]) =
              (if x1 then Exit EXIT_SUCCESS
               else Return (c1\<lparr>m_scripts := m_scripts c1 @ [\<lparr>isFile = True, argument = arg\<rparr>]\<rparr>))"
    using l[of "[]"] by (simp add: parseArguments_def)
  fix after options
  assume r: "parseArguments eng (prog # before @ arg # after) = Return options"
  let ?c2 = "c1\<lparr>m_scripts := m_scripts c1 @ [\<lparr>isFile = True, argument = arg\<rparr>]\<rparr>"
  have "\<exists>c' d' x' rest. parseLoop eng after ?c2 d1 x1 = Return (c', d', x', rest) \<and>
          m_scripts options = m_scripts c'"
  proof (cases "parseLoop eng after ?c2 d1 x1")
    case (Return t)
    obtain c' d' x' rest where t: "t = (c', d', x', rest)" by (cases t) auto
    have "m_scripts options = m_scripts c'"
      using r l[of after] Return t
      by (auto simp: parseArguments_def Let_def split: if_splits)
    then show ?thesis using Return t by blast
  next
    case (Exit status)
    then show ?thesis using r l[of after] by (simp add: parseArguments_def)
  next
    case (Undefined e)
    then show ?thesis using r l[of after] by (simp add: parseArguments_def)
  next
    case NoReturn
    then show ?thesis using r l[of after] by (simp add: parseArguments_def)
  qed
  then obtain c' d' x' rest where
    pl: "parseLoop eng after ?c2 d1 x1 = Return (c', d', x', rest)"
    and o: "m_scripts options = m_scripts c'"
    by blast
  from parseLoop_scripts_grow[OF pl] o
  show "\<exists>later. m_scripts options = m_scripts c1 @ \<lparr>isFile = True, argument = arg\<rparr> # later"
    by auto
qed

theorem unknown_long_option_becomes_a_file_witness:
  "take 2 ''--totallyUnknown'' = ''--'' \<and>
   \<not> setOption sample_engine (drop 2 ''--totallyUnknown'') \<and>
   parseArguments sample_engine [''jsc'', ''--totallyUnknown''] =
     Return \<lparr>m_interactive = False, m_dump = False, m_exitCode = False,
             m_scripts = [\<lparr>isFile = True, argument = ''--totallyUnknown''\<rparr>],
             m_arguments = [], m_profile = False, m_profilerOutput = []\<rparr> \<and>
   parseArguments sample_engine [''jsc'', ''-d'', ''-e'', ''1'', ''--totallyUnknown''] =
     Return \<lparr>m_interactive = False, m_dump = True, m_exitCode = False,
             m_scripts = [\<lparr>isFile = False, argument = ''1''\<rparr>,
                          \<lparr>isFile = True, argument = ''--totallyUnknown''\<rparr>],
             m_arguments = [], m_profile = False, m_profilerOutput = []\<rparr>"
proof -
  let ?c0 = "\<lparr>m_interactive = False, m_dump = False, m_exitCode = False, m_scripts = [],
               m_arguments = [], m_profile = False, m_profilerOutput = []\<rparr>"
  let ?c1 = "\<lparr>m_interactive = False, m_dump = True, m_exitCode = False,
              m_scripts = [\<lparr>isFile = False, argument = ''1''\<rparr>],
              m_arguments = [], m_profile = False, m_profilerOutput = []\<rparr>"
  have h1: "take 2 ''--totallyUnknown'' = ''--''" by simp
  have h2: "\<not> setOption sample_engine (drop 2 ''--totallyUnknown'')"
    by (simp add: sample_engine_def)
  have th: "parseArguments sample_engine [prog, ''--totallyUnknown''] =
           Return \<lparr>m_interactive = False, m_dump = False, m_exitCode = False,
                   m_scripts = [\<lparr>isFile = True, argument = ''--totallyUnknown''\<rparr>],
                   m_arguments = [], m_profile = False, m_profilerOutput = []\<rparr> \<and>
         (\<forall>before c1 d1 x1.
            parseLoop sample_engine before ?c0 False False = Return (c1, d1, x1, []) \<longrightarrow>
            ''--'' \<notin> set before \<longrightarrow>
            parseArguments sample_engine (prog # before @ [''--totallyUnknown'']) =
              (if x1 then Exit EXIT_SUCCESS
               else Return (c1\<lparr>m_scripts := m_scripts c1
                                @ [\<lparr>isFile = True, argument = ''--totallyUnknown''\<rparr>]\<rparr>)) \<and>
            (\<forall>after options.
               parseArguments sample_engine (prog # before @ ''--totallyUnknown'' # after) =
                 Return options \<longrightarrow>
               (\<exists>later. m_scripts options =
                          m_scripts c1 @ \<lparr>isFile = True, argument = ''--totallyUnknown''\<rparr> # later)))"
    for prog
    by (rule unknown_long_option_becomes_a_file[OF h1 _ _ _ _ h2]) simp_all
  have b: "parseLoop sample_engine [''-d'', ''-e'', ''1''] ?c0 False False = Return (?c1, False, False, [])"
    by simp
  have n: "''--'' \<notin> set [''-d'', ''-e'', ''1'']" by simp
  from th[of "''jsc''", THEN conjunct2, rule_format, OF b n, THEN conjunct1]
  have "parseArguments sample_engine [''jsc'', ''-d'', ''-e'', ''1'', ''--totallyUnknown''] =
     Return \<lparr>m_interactive = False, m_dump = True, m_exitCode = False,
             m_scripts = [\<lparr>isFile = False, argument = ''1''\<rparr>,
                          \<lparr>isFile = True, argument = ''--totallyUnknown''\<rparr>],
             m_arguments = [], m_profile = False, m_profilerOutput = []\<rparr>"
    by simp
  then show ?thesis using h1 h2 th[of "''jsc''", THEN conjunct1] by blast
qed




section \<open>The exit status\<close>









section \<open>The native functions\<close>

text \<open>
  C6. When the file named by the first argument cannot be opened, \<^verbatim>\<open>run\<close>, \<^verbatim>\<open>load\<close>
  and \<^verbatim>\<open>checkSyntax\<close> all return to the engine, with an error object whose message is
  \<open>Could not open file.\<close> as the pending exception of the calling script (in lower
  case the message starts with \<open>could not open file\<close>); the process goes on.
\<close>

theorem missing_file_in_a_native_is_thrown:
  assumes "files env (toString eng (argument0 args)) = None"
  shows "functionRun eng env g args p =
           Return (ErrorInstance ''Could not open file.'',
             p\<lparr>globalData := (globalData p)\<lparr>exception := Some (ErrorInstance ''Could not open file.'')\<rparr>,
               stderr := stderr p @ [could_not_open (toString eng (argument0 args))]\<rparr>) \<and>
         functionLoad eng env g args p = functionRun eng env g args p \<and>
         functionCheckSyntax eng env g args p = functionRun eng env g args p \<and>
         prefix ''could not open file'' (map lowercase ''Could not open file.'')"
  using assms
  by (simp add: functionRun_def functionLoad_def functionCheckSyntax_def fill_missing
      could_not_open_file_def throwError_def createError_def lowercase_def Let_def)

theorem missing_file_in_a_native_is_thrown_witness:
  "files sample_platform (toString sample_engine (argument0 [jsString ''missing.js''])) = None \<and>
   (\<exists>p'. functionRun sample_engine sample_platform 0 [jsString ''missing.js''] sample_process =
            Return (ErrorInstance ''Could not open file.'', p') \<and>
          exception (globalData p') = Some (ErrorInstance ''Could not open file.'')) \<and>
   functionLoad sample_engine sample_platform 0 [jsString ''missing.js''] sample_process =
     functionRun sample_engine sample_platform 0 [jsString ''missing.js''] sample_process"
proof -
  have h: "files sample_platform (toString sample_engine (argument0 [jsString ''missing.js''])) = None"
    by (simp add: sample_defs argument0_def)
  from missing_file_in_a_native_is_thrown[OF h, of 0 sample_process]
  show ?thesis using h by auto
qed

text \<open>
  Rounding to a double, where the power of 2 at or below the number is known, and the
  elapsed time of the sample syntax check: the double nearest to 9 milliseconds,
  multiplied by 1000 in double arithmetic, is 9.
\<close>

lemma binade_between:
  assumes "2 powi e \<le> \<bar>x\<bar>" "\<bar>x\<bar> < 2 powi (e + 1)" "- 1022 \<le> e" "e \<le> 1023"
  shows "binade x = e"
  unfolding binade_def
proof (rule Max_eqI)
  show "finite (insert (- 1022) (set (filter (\<lambda>e. 2 powi e \<le> \<bar>x\<bar>) [- 1021 .. 1023])))"
    by simp
next
  fix y
  assume "y \<in> insert (- 1022) (set (filter (\<lambda>e. 2 powi e \<le> \<bar>x\<bar>) [- 1021 .. 1023]))"
  then have "y = - 1022 \<or> (2 :: real) powi y \<le> \<bar>x\<bar>"
    by (simp only: insert_iff set_filter mem_Collect_eq) blast
  then show "y \<le> e"
  proof
    assume "y = - 1022"
    then show ?thesis using assms(3) by simp
  next
    assume "(2 :: real) powi y \<le> \<bar>x\<bar>"
    then have "(2 :: real) powi y < 2 powi (e + 1)" using assms(2) by linarith
    then have "y < e + 1"
      using power_int_increasing[of "e + 1" y "2 :: real"] by (cases "y < e + 1") auto
    then show ?thesis by simp
  qed
next
  show "e \<in> insert (- 1022) (set (filter (\<lambda>e. 2 powi e \<le> \<bar>x\<bar>) [- 1021 .. 1023]))"
  proof (cases "e = - 1022")
    case True
    then show ?thesis by (simp only: insert_iff simp_thms)
  next
    case False
    then have "e \<in> set [- 1021 .. 1023]" using assms(3,4) by (simp only: set_upto) simp
    then show ?thesis using assms(1) by (simp only: insert_iff set_filter mem_Collect_eq) blast
  qed
qed

lemma binary64_between:
  assumes "2 powi e \<le> \<bar>x\<bar>" "\<bar>x\<bar> < 2 powi (e + 1)" "- 1022 \<le> e" "e \<le> 1023"
  shows "binary64 x =
           (let r = of_int (round_to_even (x / 2 powi (e - 52))) * 2 powi (e - 52)
            in if \<bar>r\<bar> < 2 ^ 1024 then Some r else None)"
  using binade_between[OF assms] by (simp add: binary64_def Let_def)

lemma round_to_even_int: "round_to_even (of_int n) = n"
  by (simp add: round_to_even_def)

lemma nine_milliseconds_is_a_double:
  "binary64 (5188146770730811 / 2 ^ 59) = Some (5188146770730811 / 2 ^ 59)"
proof -
  have "round_to_even (5188146770730811 :: real) = 5188146770730811"
    using round_to_even_int[of 5188146770730811] by simp
  then show ?thesis
    using binary64_between[of "- 7" "5188146770730811 / 2 ^ 59"]
    by (simp add: power_int_minus_divide)
qed

lemma nine_milliseconds_times_1000:
  "binary64 (5188146770730811 / 2 ^ 59 * 1000) = Some 9"
proof -
  have "round_to_even (5188146770730811 / 2 ^ 59 * 1000 / 2 powi (3 - 52)) = 5066549580791808"
    by (simp add: round_to_even_def power_int_minus_divide)
  then show ?thesis
    using binary64_between[of 3 "5188146770730811 / 2 ^ 59 * 1000"]
    by (simp add: power_int_minus_divide)
qed

lemma getElapsedMS_in_range:
  assumes "binary64 (m_stopTime w - m_startTime w) = Some seconds"
      and "binary64 (seconds * 1000) = Some milliseconds"
      and "n = (if 0 \<le> milliseconds then \<lfloor>milliseconds\<rfloor> else \<lceil>milliseconds\<rceil>)"
      and "- (2 ^ (long_bits env - 1)) \<le> n" "n < 2 ^ (long_bits env - 1)"
  shows "getElapsedMS env w = Return n"
  using assms by (simp add: getElapsedMS_def to_long_def Let_def)

text \<open>
  C8. For a file that opens, \<^verbatim>\<open>checkSyntax\<close> hands the file's source to the engine's
  syntax check, whose own state has no exception pending. It returns the elapsed
  milliseconds: the difference of the clock readings after and before the check,
  multiplied by 1000, both in double arithmetic, without its fraction, for a time that a
  \<^verbatim>\<open>long\<close> holds. An exception is pending afterwards exactly when the syntax is invalid,
  and it is the syntax error; nothing else of the process changes. The engine's
  \<open>evaluate\<close> plays no part in the result: the file is not executed.
\<close>

theorem checkSyntax_throws_iff_invalid:
  assumes "files env (toString eng (argument0 args)) = Some (contents, bad)"
      and "checkSyntax eng (globalData p) g
             (jscSource (takeWhile (\<lambda>c. c \<noteq> CHR 0x00) (shebang_as_comment contents))
                (toString eng (argument0 args))) = (syntaxException, gd)"
      and "exception gd = None"
      and "binary64 (currentTime gd - currentTime (globalData p)) = Some seconds"
      and "binary64 (seconds * 1000) = Some milliseconds"
      and "n = (if 0 \<le> milliseconds then \<lfloor>milliseconds\<rfloor> else \<lceil>milliseconds\<rceil>)"
      and "- (2 ^ (long_bits env - 1)) \<le> n" "n < 2 ^ (long_bits env - 1)"
  shows "functionCheckSyntax eng env g args p =
           Return (jsNumber n, p\<lparr>globalData := gd\<lparr>exception := syntaxException\<rparr>\<rparr>) \<and>
         (\<forall>other_evaluate other_quits.
            functionCheckSyntax (eng\<lparr>evaluate := other_evaluate, quits := other_quits\<rparr>) env g args p =
            functionCheckSyntax eng env g args p)"
proof -
  let ?name = "toString eng (argument0 args)"
  from fill_opened[OF assms(1), of "[]" "stderr p"]
  obtain b where
    r: "fillBufferWithContentsOfFile env ?name [] (stderr p) = Return (True, b, stderr p)"
    and t: "take (Suc (length contents)) b = shebang_as_comment contents @ [CHR 0x00]"
    by auto
  have cs: "c_str b = Return (takeWhile (\<lambda>c. c \<noteq> CHR 0x00) (shebang_as_comment contents))"
    using t c_str_terminated[of "shebang_as_comment contents" b]
    by (simp add: length_shebang_as_comment)
  have el: "getElapsedMS env \<lparr>m_startTime = currentTime (globalData p),
                               m_stopTime = currentTime gd\<rparr> = Return n"
    using getElapsedMS_in_range[OF _ assms(5,6,7,8)] assms(4) by simp
  have g: "gd\<lparr>exception := None\<rparr> = gd" using assms(3) by (cases gd) simp
  have "functionCheckSyntax eng env g args p =
           Return (jsNumber n, p\<lparr>globalData := gd\<lparr>exception := syntaxException\<rparr>\<rparr>)"
    using r cs assms(2) el g
    by (cases syntaxException)
       (simp_all add: functionCheckSyntax_def Let_def throwError_def)
  moreover have "functionCheckSyntax (eng\<lparr>evaluate := other_evaluate, quits := other_quits\<rparr>) env g args p =
            functionCheckSyntax eng env g args p" for other_evaluate other_quits
    using r cs by (simp add: functionCheckSyntax_def Let_def)
  ultimately show ?thesis by blast
qed

theorem checkSyntax_throws_iff_invalid_witness:
  "functionCheckSyntax sample_engine sample_platform 0 [jsString ''b.js''] sample_process =
     Return (jsNumber 9,
       sample_process\<lparr>globalData :=
         \<lparr>heap = (), exception = None, currentTime = 5188146770730811 / 2 ^ 59\<rparr>\<rparr>) \<and>
   functionCheckSyntax sample_engine sample_platform 0 [jsString ''bad.js''] sample_process =
     Return (jsNumber 9,
       sample_process\<lparr>globalData :=
         \<lparr>heap = (), exception = Some (ErrorInstance ''SyntaxError''),
          currentTime = 5188146770730811 / 2 ^ 59\<rparr>\<rparr>) \<and>
   \<lfloor>5188146770730811 / 2 ^ 59 * 1000 :: real\<rfloor> = 8"
proof -
  let ?gd = "\<lparr>heap = (), exception = None, currentTime = 5188146770730811 / 2 ^ 59\<rparr> :: unit JSGlobalData"
  have f1: "files sample_platform (toString sample_engine (argument0 [jsString ''b.js''])) =
     Some (''2'', False)"
    by (simp add: sample_defs argument0_def)
  have f2: "files sample_platform (toString sample_engine (argument0 [jsString ''bad.js''])) =
     Some (''('', False)"
    by (simp add: sample_defs argument0_def)
  have c1: "checkSyntax sample_engine (globalData sample_process) 0
     (jscSource (takeWhile (\<lambda>c. c \<noteq> CHR 0x00) (shebang_as_comment ''2''))
        (toString sample_engine (argument0 [jsString ''b.js'']))) = (None, ?gd)"
    by (simp add: sample_defs argument0_def shebang_as_comment_def)
  have c2: "checkSyntax sample_engine (globalData sample_process) 0
     (jscSource (takeWhile (\<lambda>c. c \<noteq> CHR 0x00) (shebang_as_comment ''(''))
        (toString sample_engine (argument0 [jsString ''bad.js'']))) =
     (Some (ErrorInstance ''SyntaxError''), ?gd)"
    by (simp add: sample_defs argument0_def shebang_as_comment_def)
  have x: "exception ?gd = None" by simp
  have s: "binary64 (currentTime ?gd - currentTime (globalData sample_process)) =
             Some (5188146770730811 / 2 ^ 59)"
    using nine_milliseconds_is_a_double by (simp add: sample_defs)
  have n: "(9 :: int) = (if 0 \<le> (9 :: real) then \<lfloor>9 :: real\<rfloor> else \<lceil>9 :: real\<rceil>)" by simp
  have l: "- (2 ^ (long_bits sample_platform - 1)) \<le> (9 :: int)"
          "(9 :: int) < 2 ^ (long_bits sample_platform - 1)"
    by (simp_all add: sample_defs)
  from checkSyntax_throws_iff_invalid[OF f1 c1 x s nine_milliseconds_times_1000 n l, THEN conjunct1]
  have r1: "functionCheckSyntax sample_engine sample_platform 0 [jsString ''b.js''] sample_process =
     Return (jsNumber 9, sample_process\<lparr>globalData := ?gd\<rparr>)"
    by simp
  from checkSyntax_throws_iff_invalid[OF f2 c2 x s nine_milliseconds_times_1000 n l, THEN conjunct1]
  have r2: "functionCheckSyntax sample_engine sample_platform 0 [jsString ''bad.js''] sample_process =
     Return (jsNumber 9,
       sample_process\<lparr>globalData :=
         \<lparr>heap = (), exception = Some (ErrorInstance ''SyntaxError''),
          currentTime = 5188146770730811 / 2 ^ 59\<rparr>\<rparr>)"
    by simp
  have "\<lfloor>5188146770730811 / 2 ^ 59 * 1000 :: real\<rfloor> = 8" by simp
  then show ?thesis using r1 r2 by blast
qed


end
